theory Spec2Isabelle
  imports Main "HOL-Library.Product_Lexorder" "HOL-Library.Multiset"
begin

section \<open>Python values used by \<open>app/entities/chunk.py\<close>\<close>

text \<open>
  Exceptions are values: every function that can raise returns \<open>error + 'a\<close>, with
  \<open>Inl\<close> for the exception. \<open>NameError\<close> carries the undefined name.
\<close>

datatype error =
    NameError string
  | IndexError
  | ValueError
  | ZeroDivisionError
  | KeyError string

definition bindE :: "error + 'a \<Rightarrow> ('a \<Rightarrow> error + 'b) \<Rightarrow> error + 'b" where
  "bindE m f = (case m of Inl e \<Rightarrow> Inl e | Inr v \<Rightarrow> f v)"

text \<open>
  \<open>xs[i]\<close>: an index below zero counts from the end of the sequence, and an index
  outside \<open>-len(xs) .. len(xs)-1\<close> raises \<open>IndexError\<close>.
\<close>

definition py_index :: "'a list \<Rightarrow> int \<Rightarrow> error + 'a" where
  "py_index xs i =
     (if 0 \<le> i \<and> i < int (length xs) then Inr (xs ! nat i)
      else if i < 0 \<and> - int (length xs) \<le> i then Inr (xs ! nat (int (length xs) + i))
      else Inl IndexError)"

text \<open>\<open>g[i][j]\<close> on a list of lists (or a two-dimensional array).\<close>

definition grid_at :: "'a list list \<Rightarrow> int \<Rightarrow> int \<Rightarrow> error + 'a" where
  "grid_at g i j = bindE (py_index g i) (\<lambda>row. py_index row j)"

text \<open>\<open>a // b\<close> on Python's integers: floor division, \<open>ZeroDivisionError\<close> for \<open>b = 0\<close>.\<close>

definition floordiv :: "int \<Rightarrow> int \<Rightarrow> error + int" where
  "floordiv a b = (if b = 0 then Inl ZeroDivisionError else Inr (a div b))"

text \<open>\<open>str(i)\<close> for an integer, as the f-string of the chunk's name formats it.\<close>

function str_nat :: "nat \<Rightarrow> string" where
  "str_nat k =
     (if k < 10 then [char_of (48 + k)]
      else str_nat (k div 10) @ [char_of (48 + k mod 10)])"
  by pat_completeness auto
termination
  by (relation "measure (\<lambda>k. k)") auto

definition str_int :: "int \<Rightarrow> string" where
  "str_int i = (if i < 0 then CHR ''-'' # str_nat (nat (- i)) else str_nat (nat i))"

section \<open>\<open>Chunk.update\<close>: the per-tick pass over the game objects\<close>

text \<open>
  The game objects (players, mobs, walls, objects) are defined outside the module; the loop
  uses their \<open>update\<close>, \<open>mobile\<close>, \<open>collidable\<close>, \<open>collides_with\<close> and \<open>on_collision\<close>
  only. An object is its identity \<open>'o\<close> (the loop compares with \<open>is\<close>); everything the objects
  and the chunk's four lists hold is a state \<open>'s\<close>, read and written through the operations
  below. The calls the loop makes are recorded in order, so that they can be counted.
  The local list \<open>collision_checked\<close> is appended to and never read; it is left out.
\<close>

record ('o, 's) entity_ops =
  players :: "'s \<Rightarrow> 'o list"
  mobs :: "'s \<Rightarrow> 'o list"
  walls :: "'s \<Rightarrow> 'o list"
  objects :: "'s \<Rightarrow> 'o list"
  obj_update :: "'o \<Rightarrow> 's \<Rightarrow> 's"
  mobile :: "'o \<Rightarrow> 's \<Rightarrow> bool"
  collidable :: "'o \<Rightarrow> 's \<Rightarrow> bool"
  collides_with :: "'o \<Rightarrow> 'o \<Rightarrow> 's \<Rightarrow> bool"
  on_collision :: "'o \<Rightarrow> 'o \<Rightarrow> 's \<Rightarrow> 's"

datatype 'o call = CallUpdate 'o | CallOnCollision 'o 'o

text \<open>\<open>CallOnCollision p q\<close> is the call \<open>p.on_collision(q)\<close>: \<open>p\<close> is the object it is invoked on.\<close>

fun invoked_on :: "'o call \<Rightarrow> 'o option" where
  "invoked_on (CallUpdate p) = None"
| "invoked_on (CallOnCollision p q) = Some p"

definition game_objects :: "('o, 's) entity_ops \<Rightarrow> 's \<Rightarrow> 'o list" where
  "game_objects ops s = players ops s @ mobs ops s @ walls ops s @ objects ops s"

text \<open>The inner \<open>for other_obj in self.game_objects\<close>, for the outer iterand \<open>obj\<close>.\<close>

fun collision_pass ::
  "('o, 's) entity_ops \<Rightarrow> 'o \<Rightarrow> 'o list \<Rightarrow> 's \<times> 'o call list \<Rightarrow> 's \<times> 'o call list" where
  "collision_pass ops obj [] st = st"
| "collision_pass ops obj (other_obj # rest) (s, calls) =
     (if other_obj = obj then collision_pass ops obj rest (s, calls)
      else if collidable ops other_obj s then
        (if collides_with ops obj other_obj s then
           collision_pass ops obj rest
             (on_collision ops other_obj obj (on_collision ops obj other_obj s),
              calls @ [CallOnCollision obj other_obj, CallOnCollision other_obj obj])
         else collision_pass ops obj rest (s, calls))
      else collision_pass ops obj rest (s, calls))"

text \<open>
  The outer \<open>for obj in self.game_objects\<close>. The outer list is the one the property
  returned when the loop started; the inner list is built again for every mobile object.
\<close>

fun update_pass ::
  "('o, 's) entity_ops \<Rightarrow> 'o list \<Rightarrow> 's \<times> 'o call list \<Rightarrow> 's \<times> 'o call list" where
  "update_pass ops [] st = st"
| "update_pass ops (obj # rest) (s, calls) =
     (let s1 = obj_update ops obj s;
          calls1 = calls @ [CallUpdate obj]
      in if mobile ops obj s1
         then update_pass ops rest (collision_pass ops obj (game_objects ops s1) (s1, calls1))
         else update_pass ops rest (s1, calls1))"

definition update :: "('o, 's) entity_ops \<Rightarrow> 's \<Rightarrow> 's \<times> 'o call list" where
  "update ops s = update_pass ops (game_objects ops s) (s, [])"

text \<open>How often \<open>on_collision\<close> was invoked on \<open>p\<close> during a tick, whatever the argument.\<close>

definition invocations_on :: "'o \<Rightarrow> 'o call list \<Rightarrow> nat" where
  "invocations_on p calls = length (filter (\<lambda>c. invoked_on c = Some p) calls)"

text \<open>
  Two concrete ticks over the objects \<open>0\<close> (a mob: mobile, collidable) and \<open>1\<close> (a wall:
  collidable, not mobile), and one over two mobs. The state is the number of callbacks run.
\<close>

definition mob_and_wall :: "bool \<Rightarrow> (nat, nat) entity_ops" where
  "mob_and_wall overlap =
     \<lparr> players = (\<lambda>s. []), mobs = (\<lambda>s. [0]), walls = (\<lambda>s. [1]), objects = (\<lambda>s. []),
       obj_update = (\<lambda>obj s. Suc s),
       mobile = (\<lambda>obj s. obj = 0),
       collidable = (\<lambda>obj s. True),
       collides_with = (\<lambda>obj other_obj s. overlap),
       on_collision = (\<lambda>obj other_obj s. Suc s) \<rparr>"

definition two_mobs :: "(nat, nat) entity_ops" where
  "two_mobs =
     \<lparr> players = (\<lambda>s. []), mobs = (\<lambda>s. [0, 1]), walls = (\<lambda>s. []), objects = (\<lambda>s. []),
       obj_update = (\<lambda>obj s. Suc s),
       mobile = (\<lambda>obj s. True),
       collidable = (\<lambda>obj s. True),
       collides_with = (\<lambda>obj other_obj s. True),
       on_collision = (\<lambda>obj other_obj s. Suc s) \<rparr>"

text \<open>Every \<open>on_collision\<close> call of a list is between two different objects of \<open>A\<close>.\<close>

definition calls_within :: "'o set \<Rightarrow> 'o call list \<Rightarrow> bool" where
  "calls_within A calls =
     list_all (\<lambda>c. case c of CallUpdate p \<Rightarrow> True
                  | CallOnCollision p q \<Rightarrow> p \<noteq> q \<and> p \<in> A \<and> q \<in> A) calls"

section \<open>Configuration, blocks and the object store\<close>

text \<open>
  The module \<open>config\<close> is read for the window's and the blocks' pixel sizes. The last three
  fields stand for what the sources do not contain: the colour and the collidable flag a
  directly constructed block gets, and the order in which the persistence layer hands out
  the block records of a chunk (a rearrangement of their positions in the table).
\<close>

record config =
  window_width :: int
  window_height :: int
  block_width :: int
  block_height :: int
  default_color :: "int \<times> int \<times> int"
  default_collidable :: bool
  row_order :: "nat list \<Rightarrow> nat list"

datatype direction = DirN | DirNE | DirE | DirSE | DirS | DirSW | DirW | DirNW

text \<open>
  A block object. Its eight neighbour attributes \<open>n\<close> ... \<open>nw\<close> are \<open>blk_n\<close> ... \<open>blk_nw\<close>, each
  unset or a reference to a block; \<open>blk_db_obj\<close> is the block's record in the table of blocks, if
  it has one. Blocks are shared between chunks and mutated through references, so they live
  in a store: a reference is a position in the list of all blocks allocated so far.
\<close>

record block =
  blk_x :: int
  blk_y :: int
  blk_width :: int
  blk_height :: int
  blk_color :: "int \<times> int \<times> int"
  blk_collidable :: bool
  blk_n :: "nat option"
  blk_ne :: "nat option"
  blk_e :: "nat option"
  blk_se :: "nat option"
  blk_s :: "nat option"
  blk_sw :: "nat option"
  blk_w :: "nat option"
  blk_nw :: "nat option"
  blk_db_obj :: "nat option"

text \<open>The attribute of a block that a direction names: reading it, and assigning to it.\<close>

definition blk_link :: "block \<Rightarrow> direction \<Rightarrow> nat option" where
  "blk_link b d = (case d of
       DirN \<Rightarrow> blk_n b | DirNE \<Rightarrow> blk_ne b | DirE \<Rightarrow> blk_e b | DirSE \<Rightarrow> blk_se b
     | DirS \<Rightarrow> blk_s b | DirSW \<Rightarrow> blk_sw b | DirW \<Rightarrow> blk_w b | DirNW \<Rightarrow> blk_nw b)"

definition put_link :: "block \<Rightarrow> direction \<Rightarrow> nat option \<Rightarrow> block" where
  "put_link b d v = (case d of
       DirN \<Rightarrow> b\<lparr>blk_n := v\<rparr> | DirNE \<Rightarrow> b\<lparr>blk_ne := v\<rparr>
     | DirE \<Rightarrow> b\<lparr>blk_e := v\<rparr> | DirSE \<Rightarrow> b\<lparr>blk_se := v\<rparr>
     | DirS \<Rightarrow> b\<lparr>blk_s := v\<rparr> | DirSW \<Rightarrow> b\<lparr>blk_sw := v\<rparr>
     | DirW \<Rightarrow> b\<lparr>blk_w := v\<rparr> | DirNW \<Rightarrow> b\<lparr>blk_nw := v\<rparr>)"

record chunk_row =
  row_id :: "nat option"
  row_x :: int
  row_y :: int
  row_name :: string

record block_row =
  brow_chunk_id :: "nat option"
  brow_x :: int
  brow_y :: int
  brow_width :: int
  brow_height :: int
  brow_color :: "int \<times> int \<times> int"
  brow_collidable :: bool

text \<open>
  The store: the block objects, and the two tables of the database session. A chunk
  record's id is its position in \<open>chunk_rows\<close>.
\<close>

record store =
  heap :: "block list"
  chunk_rows :: "chunk_row list"
  block_rows :: "block_row list"

record chunk =
  db_obj :: "chunk_row option"
  chunk_x :: int
  chunk_y :: int
  chunk_width :: int
  chunk_height :: int
  n_rows :: int
  n_cols :: int
  chunk_name :: string
  grid :: "nat list list"
  blocks :: "nat list"

text \<open>What a block is apart from its links and its record: position, size, colour, flag.\<close>

definition block_contents ::
  "block \<Rightarrow> int \<times> int \<times> int \<times> int \<times> (int \<times> int \<times> int) \<times> bool" where
  "block_contents b =
     (blk_x b, blk_y b, blk_width b, blk_height b, blk_color b, blk_collidable b)"

definition grid_contents ::
  "block list \<Rightarrow> nat list list \<Rightarrow> (int \<times> int \<times> int \<times> int \<times> (int \<times> int \<times> int) \<times> bool) list list" where
  "grid_contents h g = map (map (\<lambda>a. block_contents (h ! a))) g"

definition alloc :: "block list \<Rightarrow> block \<Rightarrow> nat \<times> block list" where
  "alloc h b = (length h, h @ [b])"

text \<open>
  Modelled from the spec: the assignment \<open>block.<d> = v\<close> to a neighbour attribute of the
  block at reference \<open>a\<close> (the class \<open>Block\<close> is missing, and with it whatever it would do
  when an attribute is assigned). The spec has each link either point to a block or be
  unset, has extrusion leave the links to be wired by the caller, and has the northward and
  eastward links deferred to the chunk generated next in that direction: the assignment
  stores \<open>v\<close> as the link of that block in direction \<open>d\<close> and changes no other link and no
  other block.
\<close>

definition set_link :: "block list \<Rightarrow> nat \<Rightarrow> direction \<Rightarrow> nat \<Rightarrow> block list" where
  "set_link h a d v = h[a := put_link (h ! a) d (Some v)]"

text \<open>\<open>block.x, block.y = px, py\<close> on the block at reference \<open>a\<close>.\<close>

definition set_pos :: "block list \<Rightarrow> nat \<Rightarrow> int \<Rightarrow> int \<Rightarrow> block list" where
  "set_pos h a px py = h[a := (h ! a)\<lparr>blk_x := px, blk_y := py\<rparr>]"

text \<open>
  The class \<open>Block\<close> of \<open>app/entities/block.py\<close> is not among the sources. What
  \<open>chunk.py\<close> calls of it is modelled from the spec, definition by definition. The spec
  gives a block an integer grid position in chunk-local tile units, a pixel width and
  height, a colour, a collidable flag and up to eight links, each a block or unset.
\<close>

text \<open>
  Modelled from the spec: the coordinate delta of a direction (\<open>Block\<close>'s table is
  missing), the compass delta that block-level and chunk-level neighbour logic share.
\<close>

definition delta :: "direction \<Rightarrow> int \<times> int" where
  "delta d = (case d of
       DirN \<Rightarrow> (0, 1) | DirNE \<Rightarrow> (1, 1) | DirE \<Rightarrow> (1, 0) | DirSE \<Rightarrow> (1, - 1)
     | DirS \<Rightarrow> (0, - 1) | DirSW \<Rightarrow> (- 1, - 1) | DirW \<Rightarrow> (- 1, 0) | DirNW \<Rightarrow> (- 1, 1))"


text \<open>
  Modelled from the spec: \<open>Block(x, y)\<close>, direct construction (\<open>Block.__init__\<close> is
  missing): a block at the given position with no links and no record. Its size is the
  configured block size; colour and flag are the configuration's parameters.
\<close>

definition Block :: "config \<Rightarrow> int \<Rightarrow> int \<Rightarrow> block" where
  "Block cfg px py =
     \<lparr> blk_x = px, blk_y = py,
       blk_width = block_width cfg, blk_height = block_height cfg,
       blk_color = default_color cfg, blk_collidable = default_collidable cfg,
       blk_n = None, blk_ne = None, blk_e = None, blk_se = None,
       blk_s = None, blk_sw = None, blk_w = None, blk_nw = None, blk_db_obj = None \<rparr>"

text \<open>
  Modelled from the spec: \<open>block.create_direction(d)\<close>, extrusion (the method is missing):
  a brand-new block adjacent in direction \<open>d\<close> that copies the shared attributes, inherits
  no links and leaves the links to be wired by the caller.
\<close>

definition create_direction :: "block list \<Rightarrow> nat \<Rightarrow> direction \<Rightarrow> nat \<times> block list" where
  "create_direction h a d =
     alloc h ((h ! a)\<lparr> blk_x := blk_x (h ! a) + fst (delta d),
                      blk_y := blk_y (h ! a) + snd (delta d),
                      blk_n := None, blk_ne := None, blk_e := None, blk_se := None,
                      blk_s := None, blk_sw := None, blk_w := None, blk_nw := None,
                      blk_db_obj := None \<rparr>)"

text \<open>
  Modelled from the spec: \<open>Block.load_from_db_obj(record)\<close> (the method is missing): the
  block a record replays, with the record's position, size, colour and flag and no links.
\<close>

definition block_load_from_db_obj :: "block_row list \<Rightarrow> nat \<Rightarrow> block" where
  "block_load_from_db_obj rows i =
     \<lparr> blk_x = brow_x (rows ! i), blk_y = brow_y (rows ! i),
       blk_width = brow_width (rows ! i), blk_height = brow_height (rows ! i),
       blk_color = brow_color (rows ! i), blk_collidable = brow_collidable (rows ! i),
       blk_n = None, blk_ne = None, blk_e = None, blk_se = None,
       blk_s = None, blk_sw = None, blk_w = None, blk_nw = None, blk_db_obj = Some i \<rparr>"

text \<open>
  Modelled from the spec: what a block's record persists of it (\<open>Block.save\<close> is missing):
  position, size, colour and collidable flag.
\<close>

definition block_fields :: "block \<Rightarrow> block_row \<Rightarrow> block_row" where
  "block_fields b r =
     r\<lparr> brow_x := blk_x b, brow_y := blk_y b, brow_width := blk_width b,
        brow_height := blk_height b, brow_color := blk_color b,
        brow_collidable := blk_collidable b \<rparr>"

text \<open>
  Modelled from the spec: a new block record before its fields are written (\<open>models.Block()\<close>
  is missing).
\<close>

definition empty_block_row :: block_row where
  "empty_block_row =
     \<lparr> brow_chunk_id = None, brow_x = 0, brow_y = 0, brow_width = 0, brow_height = 0,
       brow_color = (0, 0, 0), brow_collidable = False \<rparr>"

text \<open>
  Modelled from the spec: \<open>block.save(commit=False)\<close> (the method is missing): the block's
  fields are written to its record, which is created first if the block has none.
\<close>

definition block_save :: "nat \<Rightarrow> store \<Rightarrow> store" where
  "block_save a st =
     (case blk_db_obj (heap st ! a) of
        None \<Rightarrow>
          st\<lparr> heap := (heap st)[a := (heap st ! a)\<lparr>blk_db_obj := Some (length (block_rows st))\<rparr>],
              block_rows := block_rows st @ [block_fields (heap st ! a) empty_block_row] \<rparr>
      | Some i \<Rightarrow>
          st\<lparr> block_rows := (block_rows st)[i := block_fields (heap st ! a) (block_rows st ! i)] \<rparr>)"

text \<open>
  The session and the models of \<open>app/database\<close> are not among the sources either. The
  spec's persistence gateway loads a chunk record by coordinate, if there is one, and saves
  a chunk's coordinate and name and its blocks, each block foreign-keyed to its chunk.
\<close>

text \<open>
  Modelled from the spec: \<open>session.query(models.Chunk).filter_by(x=x, y=y).first()\<close> (the
  session is missing): the first chunk record with the coordinate, if there is one.
\<close>

definition query_chunk :: "store \<Rightarrow> int \<Rightarrow> int \<Rightarrow> chunk_row option" where
  "query_chunk st x y = find (\<lambda>r. row_x r = x \<and> row_y r = y) (chunk_rows st)"

text \<open>
  Modelled from the spec: \<open>db_obj.blocks\<close> (the relationship is missing): the records
  foreign-keyed to the chunk record, handed out unordered; none for a record without an id.
\<close>

definition row_blocks :: "config \<Rightarrow> store \<Rightarrow> chunk_row \<Rightarrow> nat list" where
  "row_blocks cfg st row =
     (case row_id row of
        None \<Rightarrow> []
      | Some k \<Rightarrow>
          row_order cfg
            (filter (\<lambda>i. brow_chunk_id (block_rows st ! i) = Some k) [0..<length (block_rows st)]))"

text \<open>
  Modelled from the spec: \<open>session.add(db_obj); session.commit()\<close> for a chunk record (the
  session is missing): a record that was never committed has no id and is appended to the
  table under the next id; a committed one is updated in place.
\<close>

definition commit_chunk :: "chunk_row \<Rightarrow> store \<Rightarrow> chunk_row \<times> store" where
  "commit_chunk row st =
     (case row_id row of
        None \<Rightarrow>
          (row\<lparr>row_id := Some (length (chunk_rows st))\<rparr>,
           st\<lparr>chunk_rows := chunk_rows st @ [row\<lparr>row_id := Some (length (chunk_rows st))\<rparr>]\<rparr>)
      | Some k \<Rightarrow> (row, st\<lparr>chunk_rows := (chunk_rows st)[k := row]\<rparr>))"

section \<open>The class \<open>Chunk\<close>\<close>

text \<open>
  \<open>Chunk.__init__\<close>. The entity lists, the sprite and the drawing batch are not modelled:
  nothing below reads them.
\<close>

definition Chunk :: "config \<Rightarrow> int \<Rightarrow> int \<Rightarrow> string option \<Rightarrow> error + chunk" where
  "Chunk cfg x y name =
     bindE (floordiv (window_height cfg) (block_height cfg)) (\<lambda>rows.
     bindE (floordiv (window_width cfg) (block_width cfg)) (\<lambda>cols.
       Inr \<lparr> db_obj = None, chunk_x = x, chunk_y = y,
             chunk_width = window_width cfg, chunk_height = window_height cfg,
             n_rows = rows, n_cols = cols,
             chunk_name =
               (case name of
                  Some nm \<Rightarrow>
                    if nm \<noteq> [] then nm
                    else ''Chunk('' @ str_int x @ '', '' @ str_int y @ '')''
                | None \<Rightarrow> ''Chunk('' @ str_int x @ '', '' @ str_int y @ '')''),
             grid = [], blocks = [] \<rparr>))"

text \<open>
  \<open>link_blocks\<close>: \<open>for r_i, row in enumerate(self.grid): for b_i, block in enumerate(row)\<close>.
  \<open>link_cell\<close> is the loop body.
\<close>

definition link_cell ::
  "nat list list \<Rightarrow> int \<Rightarrow> int \<Rightarrow> int \<Rightarrow> nat \<Rightarrow> block list \<Rightarrow> error + block list" where
  "link_cell g cols r_i b_i blk h =
     bindE
       (if r_i \<noteq> 0 then
          bindE (grid_at g (r_i - 1) b_i) (\<lambda>v1.
          bindE (grid_at g (r_i - 1) (b_i - 1)) (\<lambda>v2.
            if b_i + 1 \<noteq> cols then
              bindE (grid_at g (r_i - 1) (b_i + 1)) (\<lambda>v3.
                Inr (set_link (set_link (set_link h blk DirS v1) blk DirSW v2) blk DirSE v3))
            else Inr (set_link (set_link h blk DirS v1) blk DirSW v2)))
        else Inr h)
       (\<lambda>h1.
          if b_i \<noteq> 0 then
            bindE (grid_at g r_i (b_i - 1)) (\<lambda>v4. Inr (set_link h1 blk DirW v4))
          else Inr h1)"

fun link_row ::
  "nat list list \<Rightarrow> int \<Rightarrow> int \<Rightarrow> int \<Rightarrow> nat list \<Rightarrow> block list \<Rightarrow> error + block list" where
  "link_row g cols r_i b_i [] h = Inr h"
| "link_row g cols r_i b_i (blk # rest) h =
     bindE (link_cell g cols r_i b_i blk h) (\<lambda>h1. link_row g cols r_i (b_i + 1) rest h1)"

fun link_rows ::
  "nat list list \<Rightarrow> int \<Rightarrow> int \<Rightarrow> nat list list \<Rightarrow> block list \<Rightarrow> error + block list" where
  "link_rows g cols r_i [] h = Inr h"
| "link_rows g cols r_i (row # rest) h =
     bindE (link_row g cols r_i 0 row h) (\<lambda>h1. link_rows g cols (r_i + 1) rest h1)"

definition link_blocks :: "chunk \<Rightarrow> block list \<Rightarrow> error + block list" where
  "link_blocks ch h = link_rows (grid ch) (n_cols ch) 0 (grid ch) h"

text \<open>
  \<open>np.array(xs).reshape(rows, cols)\<close>. \<open>rows_of xs r c\<close> are the \<open>r\<close> rows of \<open>c\<close> elements
  each, in order. numpy takes a dimension given as \<open>-1\<close> for unknown and infers it from the
  number of elements and the other dimension, which must not be zero and must divide that
  number; only one dimension may be unknown. Otherwise the dimensions must not be negative
  and \<open>xs\<close> must have \<open>rows * cols\<close> elements. Every other call raises \<open>ValueError\<close>.
\<close>

definition rows_of :: "'a list \<Rightarrow> nat \<Rightarrow> nat \<Rightarrow> 'a list list" where
  "rows_of xs r c = map (\<lambda>i. take c (drop (i * c) xs)) [0..<r]"

definition reshape :: "'a list \<Rightarrow> int \<Rightarrow> int \<Rightarrow> error + 'a list list" where
  "reshape xs rows cols =
     (if rows = - 1 \<and> cols = - 1 then Inl ValueError
      else if rows = - 1 then
        (if 0 < cols \<and> int (length xs) mod cols = 0
         then Inr (rows_of xs (length xs div nat cols) (nat cols))
         else Inl ValueError)
      else if cols = - 1 then
        (if 0 < rows \<and> int (length xs) mod rows = 0
         then Inr (rows_of xs (nat rows) (length xs div nat rows))
         else Inl ValueError)
      else if 0 \<le> rows \<and> 0 \<le> cols \<and> int (length xs) = rows * cols
      then Inr (rows_of xs (nat rows) (nat cols))
      else Inl ValueError)"

text \<open>
  \<open>load_blocks\<close>. The name it raises for a chunk without a record, \<open>NoDatabaseObject\<close>, is
  bound nowhere in the module (the import is \<open>NoDatabaseModel\<close>), so evaluating it raises
  \<open>NameError\<close>.
\<close>

definition load_blocks :: "config \<Rightarrow> chunk \<Rightarrow> store \<Rightarrow> error + (chunk \<times> store)" where
  "load_blocks cfg ch st =
     (case db_obj ch of
        None \<Rightarrow> Inl (NameError ''NoDatabaseObject'')
      | Some row \<Rightarrow>
          (let loaded = map (block_load_from_db_obj (block_rows st)) (row_blocks cfg st row);
               refs = [length (heap st)..<length (heap st) + length loaded];
               h = heap st @ loaded
           in bindE (reshape (sort_key (\<lambda>a. (blk_y (h ! a), blk_x (h ! a))) refs)
                       (n_rows ch) (n_cols ch))
                (\<lambda>g. bindE (link_blocks (ch\<lparr>blocks := refs, grid := g\<rparr>) h)
                  (\<lambda>h1. Inr (ch\<lparr>blocks := refs, grid := g\<rparr>, st\<lparr>heap := h1\<rparr>)))))"

definition load_from_db_obj :: "config \<Rightarrow> chunk_row \<Rightarrow> store \<Rightarrow> error + (chunk \<times> store)" where
  "load_from_db_obj cfg row st =
     bindE (Chunk cfg (row_x row) (row_y row) (Some (row_name row)))
       (\<lambda>ch. load_blocks cfg (ch\<lparr>db_obj := Some row\<rparr>) st)"

text \<open>
  \<open>save\<close>: the chunk's record is created if there is none and its fields are written; every
  block of \<open>self.blocks\<close> is saved and its record's \<open>chunk_id\<close> set to the id the chunk's
  record has at that moment; then the record is added and committed.
\<close>

definition save_block :: "nat option \<Rightarrow> nat \<Rightarrow> store \<Rightarrow> store" where
  "save_block cid a st =
     (let st1 = block_save a st
      in case blk_db_obj (heap st1 ! a) of
           None \<Rightarrow> st1
         | Some i \<Rightarrow>
             st1\<lparr>block_rows := (block_rows st1)[i := (block_rows st1 ! i)\<lparr>brow_chunk_id := cid\<rparr>]\<rparr>)"

definition save :: "chunk \<Rightarrow> store \<Rightarrow> chunk \<times> store" where
  "save ch st =
     (let row0 = (case db_obj ch of
                    None \<Rightarrow> \<lparr>row_id = None, row_x = 0, row_y = 0, row_name = []\<rparr>
                  | Some r \<Rightarrow> r);
          row1 = row0\<lparr>row_x := chunk_x ch, row_y := chunk_y ch, row_name := chunk_name ch\<rparr>;
          st1 = fold (save_block (row_id row1)) (blocks ch) st;
          (row2, st2) = commit_chunk row1 st1
      in (ch\<lparr>db_obj := Some row2\<rparr>, st2))"

text \<open>
  \<open>build_blocks\<close>, innermost part first. \<open>assign_link h g i j d v\<close> is the statement
  \<open>g[i][j].<d> = v\<close>, and \<open>py_range k\<close> the indices \<open>range(k)\<close> runs through.
\<close>

definition assign_link ::
  "block list \<Rightarrow> nat list list \<Rightarrow> int \<Rightarrow> int \<Rightarrow> direction \<Rightarrow> nat \<Rightarrow> error + block list" where
  "assign_link h g i j d v = bindE (grid_at g i j) (\<lambda>t. Inr (set_link h t d v))"

definition py_range :: "int \<Rightarrow> int list" where
  "py_range k = map int [0..<nat k]"

text \<open>
  The body of \<open>for c_i in range(n_cols)\<close> up to \<open>row.append(new_block)\<close>: the reference of
  the new block and the store of blocks after the cell's assignments. \<open>g\<close> is \<open>self.grid\<close>
  (the rows finished so far) and \<open>row\<close> the cells of the current row.
\<close>

definition first_cell ::
  "config \<Rightarrow> chunk option \<Rightarrow> chunk option \<Rightarrow> block list \<Rightarrow> error + (nat \<times> block list)" where
  "first_cell cfg chunk_w chunk_s h =
     (case chunk_w of
        Some cw \<Rightarrow>
          (case chunk_s of
             Some cs \<Rightarrow>
               bindE (grid_at (grid cs) (- 1) 0) (\<lambda>v.
               bindE (assign_link h (grid cw) 0 (- 1) DirSE v) (\<lambda>h1.
               bindE (grid_at (grid cw) 0 (- 1)) (\<lambda>src.
                 (case create_direction h1 src DirE of
                    (new_block, h2) \<Rightarrow> Inr (new_block, set_pos h2 new_block 0 0)))))
           | None \<Rightarrow>
               bindE (grid_at (grid cw) 0 (- 1)) (\<lambda>src.
                 (case create_direction h src DirE of
                    (new_block, h2) \<Rightarrow> Inr (new_block, set_pos h2 new_block 0 0))))
      | None \<Rightarrow>
          (case chunk_s of
             Some cs \<Rightarrow>
               bindE (grid_at (grid cs) (- 1) 0) (\<lambda>src.
                 (case create_direction h src DirN of
                    (new_block, h2) \<Rightarrow> Inr (new_block, set_pos h2 new_block 0 0)))
           | None \<Rightarrow> Inr (alloc h (Block cfg 0 0))))"

definition first_column_cell ::
  "chunk option \<Rightarrow> nat list list \<Rightarrow> int \<Rightarrow> int \<Rightarrow> block list \<Rightarrow> error + (nat \<times> block list)" where
  "first_column_cell chunk_w g r_i c_i h =
     bindE
       (case chunk_w of
          Some cw \<Rightarrow>
            bindE (grid_at (grid cw) r_i (- 1)) (\<lambda>v1.
            bindE (assign_link h g (r_i - 1) 0 DirNW v1) (\<lambda>h1.
            bindE (grid_at (grid cw) (r_i - 1) (- 1)) (\<lambda>v2.
            bindE (assign_link h1 g (r_i - 1) 0 DirW v2) (\<lambda>h2.
            bindE (grid_at (grid cw) (r_i - 2) (- 1)) (\<lambda>v3.
              assign_link h2 g (r_i - 1) 0 DirSW v3)))))
        | None \<Rightarrow> Inr h)
       (\<lambda>h3.
          bindE (grid_at g (r_i - 1) 0) (\<lambda>src.
            (case create_direction h3 src DirN of
               (new_block, h4) \<Rightarrow>
                 bindE (grid_at g (r_i - 1) (c_i + 1)) (\<lambda>v4.
                   (case chunk_w of
                      Some cw \<Rightarrow>
                        bindE (grid_at (grid cw) r_i (- 1)) (\<lambda>v5.
                          Inr (new_block,
                               set_link (set_link h4 new_block DirSE v4) new_block DirW v5))
                    | None \<Rightarrow> Inr (new_block, set_link h4 new_block DirSE v4))))))"

definition last_column_cell ::
  "nat list list \<Rightarrow> nat list \<Rightarrow> int \<Rightarrow> int \<Rightarrow> block list \<Rightarrow> error + (nat \<times> block list)" where
  "last_column_cell g row r_i c_i h =
     bindE (py_index row (- 1)) (\<lambda>src.
       (case create_direction h src DirE of
          (new_block, h1) \<Rightarrow>
            if r_i = 0 then Inr (new_block, h1)
            else
              bindE (grid_at g (r_i - 1) c_i) (\<lambda>v1.
              bindE (grid_at g (r_i - 1) (c_i - 1)) (\<lambda>v2.
                Inr (new_block, set_link (set_link h1 new_block DirS v1) new_block DirSW v2)))))"

definition other_column_cell ::
  "chunk option \<Rightarrow> nat list list \<Rightarrow> nat list \<Rightarrow> int \<Rightarrow> int \<Rightarrow> block list \<Rightarrow>
     error + (nat \<times> block list)" where
  "other_column_cell chunk_s g row r_i c_i h =
     bindE (py_index row (- 1)) (\<lambda>src.
       (case create_direction h src DirE of
          (new_block, h1) \<Rightarrow>
            if r_i = 0 then
              (case chunk_s of
                 Some cs \<Rightarrow>
                   bindE (grid_at (grid cs) (- 1) (c_i - 1)) (\<lambda>v1.
                   bindE (grid_at (grid cs) (- 1) c_i) (\<lambda>v2.
                   bindE (grid_at (grid cs) (- 1) (c_i + 1)) (\<lambda>v3.
                     Inr (new_block,
                          set_link (set_link (set_link h1 new_block DirSW v1) new_block DirS v2)
                            new_block DirSE v3))))
               | None \<Rightarrow> Inr (new_block, h1))
            else
              bindE (grid_at g (r_i - 1) (c_i - 1)) (\<lambda>v1.
              bindE (grid_at g (r_i - 1) c_i) (\<lambda>v2.
              bindE (grid_at g (r_i - 1) (c_i + 1)) (\<lambda>v3.
                Inr (new_block,
                     set_link (set_link (set_link h1 new_block DirSW v1) new_block DirS v2)
                       new_block DirSE v3))))))"

definition build_cell ::
  "config \<Rightarrow> chunk option \<Rightarrow> chunk option \<Rightarrow> int \<Rightarrow> nat list list \<Rightarrow> nat list \<Rightarrow> int \<Rightarrow> int \<Rightarrow>
     block list \<Rightarrow> error + (nat \<times> block list)" where
  "build_cell cfg chunk_w chunk_s cols g row r_i c_i h =
     (if c_i = 0 then
        (if r_i = 0 then first_cell cfg chunk_w chunk_s h
         else first_column_cell chunk_w g r_i c_i h)
      else if c_i = cols - 1 then last_column_cell g row r_i c_i h
      else other_column_cell chunk_s g row r_i c_i h)"

fun build_row ::
  "config \<Rightarrow> chunk option \<Rightarrow> chunk option \<Rightarrow> int \<Rightarrow> nat list list \<Rightarrow> int \<Rightarrow> int list \<Rightarrow>
     nat list \<Rightarrow> block list \<Rightarrow> error + (nat list \<times> block list)" where
  "build_row cfg chunk_w chunk_s cols g r_i [] row h = Inr (row, h)"
| "build_row cfg chunk_w chunk_s cols g r_i (c_i # rest) row h =
     (case build_cell cfg chunk_w chunk_s cols g row r_i c_i h of
        Inl e \<Rightarrow> Inl e
      | Inr (new_block, h1) \<Rightarrow>
          build_row cfg chunk_w chunk_s cols g r_i rest (row @ [new_block]) h1)"

fun build_rows ::
  "config \<Rightarrow> chunk option \<Rightarrow> chunk option \<Rightarrow> int \<Rightarrow> int list \<Rightarrow> nat list list \<Rightarrow>
     block list \<Rightarrow> error + (nat list list \<times> block list)" where
  "build_rows cfg chunk_w chunk_s cols [] g h = Inr (g, h)"
| "build_rows cfg chunk_w chunk_s cols (r_i # rest) g h =
     (case build_row cfg chunk_w chunk_s cols g r_i (py_range cols) [] h of
        Inl e \<Rightarrow> Inl e
      | Inr (row, h1) \<Rightarrow> build_rows cfg chunk_w chunk_s cols rest (g @ [row]) h1)"

text \<open>
  \<open>build_blocks\<close> from \<open>self.grid = []\<close> on, given the two neighbours: the grid is grown,
  then \<open>self.save()\<close> runs while \<open>self.blocks\<close> still is what it was, and only then
  \<open>self.blocks\<close> becomes the flattened grid.
\<close>

definition build_grid ::
  "config \<Rightarrow> chunk option \<Rightarrow> chunk option \<Rightarrow> chunk \<Rightarrow> store \<Rightarrow> error + (chunk \<times> store)" where
  "build_grid cfg chunk_w chunk_s ch st =
     bindE (floordiv (chunk_height ch) (block_height cfg)) (\<lambda>rows.
     bindE (floordiv (chunk_width ch) (block_width cfg)) (\<lambda>cols.
     bindE (build_rows cfg chunk_w chunk_s cols (py_range rows) [] (heap st)) (\<lambda>(g, h).
       (case save (ch\<lparr>grid := g\<rparr>) (st\<lparr>heap := h\<rparr>) of
          (ch1, st1) \<Rightarrow> Inr (ch1\<lparr>blocks := concat (grid ch1)\<rparr>, st1)))))"

text \<open>
  \<open>Chunk.load\<close> and \<open>build_blocks\<close> call each other: \<open>build_blocks\<close> loads the west and
  the south neighbour with \<open>create\<close> left at its default \<open>False\<close>. Of \<open>load\<close>, the steps
  after the chunk is obtained (background image, sprite, walls, mobs) read the chunk and
  write neither its coordinate, name, grid and blocks nor the database; they are not
  modelled.
\<close>

function load :: "config \<Rightarrow> int \<Rightarrow> int \<Rightarrow> bool \<Rightarrow> store \<Rightarrow> error + (chunk option \<times> store)"
  and build_blocks :: "config \<Rightarrow> chunk \<Rightarrow> store \<Rightarrow> error + (chunk \<times> store)" where
  "load cfg x y create st =
     (case query_chunk st x y of
        None \<Rightarrow>
          (if create then
             (case Chunk cfg x y None of
                Inl e \<Rightarrow> Inl e
              | Inr ch \<Rightarrow>
                  (case build_blocks cfg ch st of
                     Inl e \<Rightarrow> Inl e
                   | Inr (ch1, st1) \<Rightarrow>
                       (case save ch1 st1 of (ch2, st2) \<Rightarrow> Inr (Some ch2, st2))))
           else Inr (None, st))
      | Some loaded_chunk \<Rightarrow>
          (case load_from_db_obj cfg loaded_chunk st of
             Inl e \<Rightarrow> Inl e
           | Inr (ch, st1) \<Rightarrow> Inr (Some ch, st1)))"
| "build_blocks cfg ch st =
     (case load cfg (chunk_x ch - 1) (chunk_y ch) False st of
        Inl e \<Rightarrow> Inl e
      | Inr (chunk_w, st1) \<Rightarrow>
          (case load cfg (chunk_x ch) (chunk_y ch - 1) False st1 of
             Inl e \<Rightarrow> Inl e
           | Inr (chunk_s, st2) \<Rightarrow> build_grid cfg chunk_w chunk_s ch st2))"
  by pat_completeness auto
termination
  by (relation "measure (\<lambda>v. case v of
         Inl (cfg, x, y, create, st) \<Rightarrow> if create then 2 else 0
       | Inr (cfg, ch, st) \<Rightarrow> 1)") auto

declare load.simps [simp del] build_blocks.simps [simp del]

section \<open>\<open>LazyChunkLoader\<close>: the eight neighbour accessors of a chunk\<close>

text \<open>
  \<open>LazyChunkLoader.__get__\<close> builds \<open>dir_map\<close> from the coordinate of the chunk it is
  read on, looks its own direction up and returns \<open>world.load_chunk(*target, create=True)\<close>.
  The module \<open>app.world\<close> is not part of the sources, so the loader it exports is a
  parameter \<open>load_chunk\<close>: a function of the coordinate, the \<open>create\<close> flag and the world's
  state, returning its result and the new state. The descriptor defines \<open>__get__\<close> only and
  stores nothing on the chunk, so the accessor takes and returns no cache.
\<close>

definition dir_map :: "int \<Rightarrow> int \<Rightarrow> (string \<times> (int \<times> int)) list" where
  "dir_map x y =
     [(''n'',  (x, y + 1)),
      (''ne'', (x + 1, y + 1)),
      (''e'',  (x + 1, y)),
      (''se'', (x + 1, y - 1)),
      (''s'',  (x, y - 1)),
      (''sw'', (x - 1, y - 1)),
      (''w'',  (x - 1, y)),
      (''nw'', (x - 1, y + 1))]"

definition lazy_get ::
  "(int \<Rightarrow> int \<Rightarrow> bool \<Rightarrow> 'w \<Rightarrow> 'r \<times> 'w) \<Rightarrow> string \<Rightarrow> chunk \<Rightarrow> 'w \<Rightarrow> error + ('r \<times> 'w)" where
  "lazy_get load_chunk direction obj w =
     (case map_of (dir_map (chunk_x obj) (chunk_y obj)) direction of
        None \<Rightarrow> Inl (KeyError direction)
      | Some target \<Rightarrow> Inr (load_chunk (fst target) (snd target) True w))"

text \<open>The class attributes \<open>n = LazyChunkLoader('n')\<close> ... \<open>nw = LazyChunkLoader('nw')\<close>.\<close>

definition Chunk_n where "Chunk_n load_chunk = lazy_get load_chunk ''n''"
definition Chunk_ne where "Chunk_ne load_chunk = lazy_get load_chunk ''ne''"
definition Chunk_e where "Chunk_e load_chunk = lazy_get load_chunk ''e''"
definition Chunk_se where "Chunk_se load_chunk = lazy_get load_chunk ''se''"
definition Chunk_s where "Chunk_s load_chunk = lazy_get load_chunk ''s''"
definition Chunk_sw where "Chunk_sw load_chunk = lazy_get load_chunk ''sw''"
definition Chunk_w where "Chunk_w load_chunk = lazy_get load_chunk ''w''"
definition Chunk_nw where "Chunk_nw load_chunk = lazy_get load_chunk ''nw''"

text \<open>
  A resolver that only counts how often it is called (its state is the number of calls so
  far) and returns the coordinate it was asked for together with the flag.
\<close>

definition counting_loader :: "int \<Rightarrow> int \<Rightarrow> bool \<Rightarrow> nat \<Rightarrow> (int \<times> int \<times> bool) \<times> nat" where
  "counting_loader x y create calls = ((x, y, create), Suc calls)"

text \<open>Reading an accessor twice in a row: the second read starts from the world the first left.\<close>

definition read_twice :: "('w \<Rightarrow> error + ('r \<times> 'w)) \<Rightarrow> 'w \<Rightarrow> error + ('r \<times> 'w)" where
  "read_twice acc w = bindE (acc w) (\<lambda>(r, w1). acc w1)"

section \<open>Concrete configurations and stores\<close>

text \<open>A window of two by two blocks, handing block records out in table order.\<close>

definition cfg22 :: config where
  "cfg22 =
     \<lparr> window_width = 20, window_height = 20, block_width = 10, block_height = 10,
       default_color = (0, 0, 0), default_collidable = False, row_order = (\<lambda>is. is) \<rparr>"

text \<open>A window whose sizes are no multiples of the block's: 25 by 25 pixels.\<close>

definition cfg_uneven :: config where
  "cfg_uneven =
     \<lparr> window_width = 25, window_height = 25, block_width = 10, block_height = 10,
       default_color = (0, 0, 0), default_collidable = False, row_order = (\<lambda>is. is) \<rparr>"

definition empty_store :: store where
  "empty_store = \<lparr> heap = [], chunk_rows = [], block_rows = [] \<rparr>"

text \<open>
  A database holding the chunk at the origin with its four blocks, the records not in
  row-major order.
\<close>

definition persisted_row :: "int \<Rightarrow> int \<Rightarrow> block_row" where
  "persisted_row px py =
     \<lparr> brow_chunk_id = Some 0, brow_x = px, brow_y = py, brow_width = 10, brow_height = 10,
       brow_color = (0, 0, 0), brow_collidable = False \<rparr>"

definition origin_row :: chunk_row where
  "origin_row = \<lparr> row_id = Some 0, row_x = 0, row_y = 0, row_name = ''Chunk(0, 0)'' \<rparr>"

definition persisted_store :: store where
  "persisted_store =
     \<lparr> heap = [],
       chunk_rows = [origin_row],
       block_rows = [persisted_row 1 1, persisted_row 0 0, persisted_row 1 0, persisted_row 0 1] \<rparr>"

text \<open>A chunk object that was constructed and never given a record.\<close>

definition unsaved_chunk :: chunk where
  "unsaved_chunk =
     \<lparr> db_obj = None, chunk_x = 0, chunk_y = 0, chunk_width = 20, chunk_height = 20,
       n_rows = 2, n_cols = 2, chunk_name = ''Chunk(0, 0)'', grid = [], blocks = [] \<rparr>"

section \<open>Auxiliary notions for the linking pass\<close>






section \<open>Auxiliary notions for generation and hydration\<close>

text \<open>
  The record a new chunk is committed under; grids of a given number of rows and columns;
  stores of blocks that agree on what the blocks are (\<open>relinked\<close>: only links differ,
  \<open>keeps\<close>: the old blocks are kept and more may follow); what one cell of \<open>build_blocks\<close>
  adds (\<open>cell_post\<close>); rows and grids whose blocks sit at their grid positions and have no
  record yet (\<open>placed_row\<close>, \<open>placed\<close>); configurations with positive block sizes; the
  grid's dimensions; a coordinate whose persisted chunk, if any, has as many block records
  as the grid has cells (\<open>hydratable\<close>); and the store a generating \<open>load\<close> leaves.
\<close>

definition fresh_row :: "store \<Rightarrow> chunk \<Rightarrow> chunk_row" where
  "fresh_row st ch =
     \<lparr>row_id = Some (length (chunk_rows st)), row_x = chunk_x ch, row_y = chunk_y ch,
      row_name = chunk_name ch\<rparr>"

definition has_shape :: "'a list list \<Rightarrow> nat \<Rightarrow> nat \<Rightarrow> bool" where
  "has_shape g r c = (length g = r \<and> list_all (\<lambda>row. length row = c) g)"

definition neighbour_shape :: "chunk option \<Rightarrow> nat \<Rightarrow> nat \<Rightarrow> bool" where
  "neighbour_shape nb r c = (case nb of None \<Rightarrow> True | Some w \<Rightarrow> has_shape (grid w) r c)"

definition relinked :: "block list \<Rightarrow> block list \<Rightarrow> bool" where
  "relinked h h' =
     (length h' = length h \<and>
      (\<forall>a. block_contents (h' ! a) = block_contents (h ! a) \<and>
           blk_db_obj (h' ! a) = blk_db_obj (h ! a)))"

definition keeps :: "block list \<Rightarrow> block list \<Rightarrow> bool" where
  "keeps h h' =
     (length h \<le> length h' \<and>
      (\<forall>a<length h. block_contents (h' ! a) = block_contents (h ! a) \<and>
           blk_db_obj (h' ! a) = blk_db_obj (h ! a)))"

definition cell_post :: "block list \<Rightarrow> nat \<Rightarrow> block list \<Rightarrow> int \<Rightarrow> int \<Rightarrow> bool" where
  "cell_post h nb h' px py =
     (nb = length h \<and> length h' = Suc (length h) \<and> keeps h h' \<and>
      blk_x (h' ! nb) = px \<and> blk_y (h' ! nb) = py \<and> blk_db_obj (h' ! nb) = None)"

definition placed_row :: "block list \<Rightarrow> nat list \<Rightarrow> nat \<Rightarrow> bool" where
  "placed_row h row r =
     (\<forall>j<length row. row ! j < length h \<and> blk_x (h ! (row ! j)) = int j \<and>
         blk_y (h ! (row ! j)) = int r \<and> blk_db_obj (h ! (row ! j)) = None)"

definition placed :: "block list \<Rightarrow> nat list list \<Rightarrow> bool" where
  "placed h g = (\<forall>i<length g. placed_row h (g ! i) i)"

definition valid_config :: "config \<Rightarrow> bool" where
  "valid_config cfg =
     (0 < block_width cfg \<and> 0 < block_height cfg \<and> 0 \<le> window_width cfg \<and> 0 \<le> window_height cfg)"

definition grid_rows :: "config \<Rightarrow> nat" where
  "grid_rows cfg = nat (window_height cfg div block_height cfg)"

definition grid_cols :: "config \<Rightarrow> nat" where
  "grid_cols cfg = nat (window_width cfg div block_width cfg)"

definition hydratable :: "config \<Rightarrow> store \<Rightarrow> int \<Rightarrow> int \<Rightarrow> bool" where
  "hydratable cfg st x y =
     (case query_chunk st x y of
        None \<Rightarrow> True
      | Some row \<Rightarrow> length (row_blocks cfg st row) = grid_rows cfg * grid_cols cfg)"

definition generated_store :: "store \<Rightarrow> store \<Rightarrow> chunk \<Rightarrow> nat list list \<Rightarrow> block list \<Rightarrow> store" where
  "generated_store st ss ch g h =
     (fold (save_block (Some (length (chunk_rows st)))) (concat g)
        (ss\<lparr>heap := h, chunk_rows := chunk_rows st @ [fresh_row st ch]\<rparr>))
     \<lparr>chunk_rows := chunk_rows st @ [fresh_row st ch]\<rparr>"

section \<open>Auxiliary notions for the round trip through the database\<close>

text \<open>
  What a block record holds (\<open>row_contents\<close>) and the key hydration sorts by, read off
  the contents; the contents a hydrated grid has, in grid order (\<open>hydrated_contents\<close>); the
  record a block without one is saved to (\<open>saved_row\<close>); a table of blocks none of whose
  records refers to a chunk id that is not in the table of chunks (\<open>foreign_keys_ok\<close>);
  and the sort key of the \<open>p\<close>-th cell of a grid of \<open>c\<close> columns in row-major order.
\<close>

definition row_contents ::
  "block_row \<Rightarrow> int \<times> int \<times> int \<times> int \<times> (int \<times> int \<times> int) \<times> bool" where
  "row_contents r =
     (brow_x r, brow_y r, brow_width r, brow_height r, brow_color r, brow_collidable r)"

definition contents_key ::
  "int \<times> int \<times> int \<times> int \<times> (int \<times> int \<times> int) \<times> bool \<Rightarrow> int \<times> int" where
  "contents_key c = (fst (snd c), fst c)"

definition hydrated_contents ::
  "config \<Rightarrow> store \<Rightarrow> chunk_row \<Rightarrow> (int \<times> int \<times> int \<times> int \<times> (int \<times> int \<times> int) \<times> bool) list" where
  "hydrated_contents cfg st row =
     sort_key contents_key (map (\<lambda>i. row_contents (block_rows st ! i)) (row_blocks cfg st row))"

definition saved_row :: "nat option \<Rightarrow> block \<Rightarrow> block_row" where
  "saved_row cid b = (block_fields b empty_block_row)\<lparr>brow_chunk_id := cid\<rparr>"

definition foreign_keys_ok :: "store \<Rightarrow> bool" where
  "foreign_keys_ok st =
     list_all (\<lambda>b. case brow_chunk_id b of None \<Rightarrow> True | Some k \<Rightarrow> k < length (chunk_rows st))
       (block_rows st)"

definition cell_key :: "nat \<Rightarrow> nat \<Rightarrow> int \<times> int" where
  "cell_key c p = (int (p div c), int (p mod c))"

section \<open>Properties of the neighbour accessors\<close>

lemma lazy_get_simps:
  "lazy_get ld ''n'' ch w = Inr (ld (chunk_x ch) (chunk_y ch + 1) True w)"
  "lazy_get ld ''ne'' ch w = Inr (ld (chunk_x ch + 1) (chunk_y ch + 1) True w)"
  "lazy_get ld ''e'' ch w = Inr (ld (chunk_x ch + 1) (chunk_y ch) True w)"
  "lazy_get ld ''se'' ch w = Inr (ld (chunk_x ch + 1) (chunk_y ch - 1) True w)"
  "lazy_get ld ''s'' ch w = Inr (ld (chunk_x ch) (chunk_y ch - 1) True w)"
  "lazy_get ld ''sw'' ch w = Inr (ld (chunk_x ch - 1) (chunk_y ch - 1) True w)"
  "lazy_get ld ''w'' ch w = Inr (ld (chunk_x ch - 1) (chunk_y ch) True w)"
  "lazy_get ld ''nw'' ch w = Inr (ld (chunk_x ch - 1) (chunk_y ch + 1) True w)"
  by (simp_all add: lazy_get_def dir_map_def)

text \<open>
  Claim C5, as the code has it: each of the eight accessors computes the target coordinate
  from the chunk's own coordinate by the fixed compass delta and passes it to the loader
  with \<open>create = True\<close>, on every read. Nothing is memoized: a second read calls the loader
  again, on the world the first read left (shown for \<open>n\<close> and \<open>sw\<close>).
\<close>

theorem accessors_resolve_every_time:
  "Chunk_n ld ch w = Inr (ld (chunk_x ch) (chunk_y ch + 1) True w) \<and>
   Chunk_ne ld ch w = Inr (ld (chunk_x ch + 1) (chunk_y ch + 1) True w) \<and>
   Chunk_e ld ch w = Inr (ld (chunk_x ch + 1) (chunk_y ch) True w) \<and>
   Chunk_se ld ch w = Inr (ld (chunk_x ch + 1) (chunk_y ch - 1) True w) \<and>
   Chunk_s ld ch w = Inr (ld (chunk_x ch) (chunk_y ch - 1) True w) \<and>
   Chunk_sw ld ch w = Inr (ld (chunk_x ch - 1) (chunk_y ch - 1) True w) \<and>
   Chunk_w ld ch w = Inr (ld (chunk_x ch - 1) (chunk_y ch) True w) \<and>
   Chunk_nw ld ch w = Inr (ld (chunk_x ch - 1) (chunk_y ch + 1) True w) \<and>
   read_twice (Chunk_n ld ch) w
     = Inr (ld (chunk_x ch) (chunk_y ch + 1) True (snd (ld (chunk_x ch) (chunk_y ch + 1) True w))) \<and>
   read_twice (Chunk_sw ld ch) w
     = Inr (ld (chunk_x ch - 1) (chunk_y ch - 1) True
              (snd (ld (chunk_x ch - 1) (chunk_y ch - 1) True w)))"
  by (simp add: Chunk_n_def Chunk_ne_def Chunk_e_def Chunk_se_def Chunk_s_def Chunk_sw_def
      Chunk_w_def Chunk_nw_def lazy_get_simps read_twice_def bindE_def split: prod.splits)

text \<open>
  Claim C5 as stated fails: with a loader that counts its calls, reading \<open>n\<close> twice on the
  chunk at the origin leaves the count at two, so the second read resolved again.
\<close>

theorem accessor_second_read_resolves_again:
  "read_twice (Chunk_n counting_loader unsaved_chunk) 0 = Inr ((0, 1, True), 2)"
  by (simp add: read_twice_def Chunk_n_def lazy_get_simps counting_loader_def unsaved_chunk_def bindE_def)



section \<open>Properties of the tick\<close>

lemma collision_pass_unrelated:
  "obj \<noteq> p \<Longrightarrow> obj \<noteq> q \<Longrightarrow>
   count_list (snd (collision_pass ops obj others (s, calls))) (CallOnCollision p q)
     = count_list calls (CallOnCollision p q)"
  by (induction others arbitrary: s calls) auto

lemma collision_pass_outer_hit:
  assumes "p \<noteq> q" "\<forall>s. collidable ops q s" "\<forall>s. collides_with ops p q s"
  shows "count_list (snd (collision_pass ops p others (s, calls))) (CallOnCollision p q)
     = count_list calls (CallOnCollision p q) + count_list others q"
  using assms by (induction others arbitrary: s calls) auto

lemma collision_pass_inner_hit:
  assumes "p \<noteq> q" "\<forall>s. collidable ops p s" "\<forall>s. collides_with ops q p s"
  shows "count_list (snd (collision_pass ops q others (s, calls))) (CallOnCollision p q)
     = count_list calls (CallOnCollision p q) + count_list others p"
  using assms by (induction others arbitrary: s calls) auto

lemma collision_pass_outer_miss:
  assumes "p \<noteq> q" "\<forall>s. \<not> collides_with ops p q s"
  shows "count_list (snd (collision_pass ops p others (s, calls))) (CallOnCollision p q)
     = count_list calls (CallOnCollision p q)"
  using assms by (induction others arbitrary: s calls) auto

lemma collision_pass_inner_miss:
  assumes "p \<noteq> q" "\<forall>s. \<not> collides_with ops q p s"
  shows "count_list (snd (collision_pass ops q others (s, calls))) (CallOnCollision p q)
     = count_list calls (CallOnCollision p q)"
  using assms by (induction others arbitrary: s calls) auto

lemma collision_pass_within:
  "calls_within A calls \<Longrightarrow> obj \<in> A \<Longrightarrow> set others \<subseteq> A \<Longrightarrow>
   calls_within A (snd (collision_pass ops obj others (s, calls)))"
  by (induction others arbitrary: s calls) (auto simp: calls_within_def)

lemma update_pass_within:
  "calls_within A calls \<Longrightarrow> set os \<subseteq> A \<Longrightarrow> \<forall>s. set (game_objects ops s) \<subseteq> A \<Longrightarrow>
   calls_within A (snd (update_pass ops os (s, calls)))"
proof (induction os arbitrary: s calls)
  case Nil
  then show ?case by simp
next
  case (Cons obj os)
  let ?s1 = "obj_update ops obj s"
  let ?c1 = "calls @ [CallUpdate obj]"
  have c1: "calls_within A ?c1" using Cons.prems(1) by (simp add: calls_within_def)
  show ?case
  proof (cases "mobile ops obj ?s1")
    case True
    obtain s2 c2 where r: "collision_pass ops obj (game_objects ops ?s1) (?s1, ?c1) = (s2, c2)"
      by (cases "collision_pass ops obj (game_objects ops ?s1) (?s1, ?c1)")
    have "calls_within A c2"
      using collision_pass_within[OF c1, of obj "game_objects ops ?s1" ops ?s1] Cons.prems r by auto
    then show ?thesis using Cons.IH[of c2 s2] Cons.prems True r by (simp add: Let_def)
  next
    case False
    then show ?thesis using Cons.IH[OF c1, of ?s1] Cons.prems by (simp add: Let_def)
  qed
qed

lemma invocations_on_pair:
  assumes "calls_within {a, b} calls" "a \<noteq> b"
  shows "invocations_on a calls = count_list calls (CallOnCollision a b)"
  using assms unfolding invocations_on_def calls_within_def
  by (induction calls) (auto split: call.splits)


lemma update_pass_Cons:
  "update_pass ops (obj # os) (s, calls) =
     (if mobile ops obj (obj_update ops obj s)
      then update_pass ops os
             (collision_pass ops obj (game_objects ops (obj_update ops obj s))
                (obj_update ops obj s, calls @ [CallUpdate obj]))
      else update_pass ops os (obj_update ops obj s, calls @ [CallUpdate obj]))"
  by (simp add: Let_def)

lemma update_pass_hit_once:
  assumes objs: "\<forall>s. game_objects ops s = objs" and ne: "a \<noteq> b"
    and ma: "\<forall>s. mobile ops a s" and mb: "\<forall>s. \<not> mobile ops b s"
    and cb: "\<forall>s. collidable ops b s" and hit: "\<forall>s. collides_with ops a b s"
  shows "count_list (snd (update_pass ops os (s, calls))) (CallOnCollision a b)
           = count_list calls (CallOnCollision a b) + count_list os a * count_list objs b
       \<and> count_list (snd (update_pass ops os (s, calls))) (CallOnCollision b a)
           = count_list calls (CallOnCollision b a) + count_list os a * count_list objs b"
proof (induction os arbitrary: s calls)
  case Nil
  show ?case by simp
next
  case (Cons obj os)
  let ?s1 = "obj_update ops obj s"
  let ?c1 = "calls @ [CallUpdate obj]"
  obtain s2 c2 where r: "collision_pass ops obj objs (?s1, ?c1) = (s2, c2)"
    by (cases "collision_pass ops obj objs (?s1, ?c1)")
  have c2: "c2 = snd (collision_pass ops obj objs (?s1, ?c1))" using r by simp
  consider (A) "obj = a" | (B) "obj = b" | (O) "obj \<noteq> a" "obj \<noteq> b" by blast
  then show ?case
  proof cases
    case A
    have "count_list c2 (CallOnCollision a b) = count_list calls (CallOnCollision a b) + count_list objs b"
      unfolding c2 A using collision_pass_outer_hit[OF ne cb hit] by simp
    moreover have "count_list c2 (CallOnCollision b a) = count_list calls (CallOnCollision b a) + count_list objs b"
      unfolding c2 A using collision_pass_inner_hit[OF ne[symmetric] cb hit] by simp
    ultimately show ?thesis
      using Cons.IH[of s2 c2] A ma ne objs r by (simp add: Let_def)
  next
    case B
    then show ?thesis using Cons.IH[of ?s1 ?c1] mb ne by (simp add: Let_def)
  next
    case O
    have "count_list c2 (CallOnCollision a b) = count_list calls (CallOnCollision a b)"
      unfolding c2 by (simp add: collision_pass_unrelated[OF O])
    moreover have "count_list c2 (CallOnCollision b a) = count_list calls (CallOnCollision b a)"
      unfolding c2 by (simp add: collision_pass_unrelated[OF O(2) O(1)])
    ultimately show ?thesis
      using Cons.IH[of s2 c2] Cons.IH[of ?s1 ?c1] O objs r by (simp add: Let_def)
  qed
qed

lemma update_pass_miss:
  assumes objs: "\<forall>s. game_objects ops s = objs" and ne: "a \<noteq> b"
    and mb: "\<forall>s. \<not> mobile ops b s" and miss: "\<forall>s. \<not> collides_with ops a b s"
  shows "count_list (snd (update_pass ops os (s, calls))) (CallOnCollision a b)
           = count_list calls (CallOnCollision a b)
       \<and> count_list (snd (update_pass ops os (s, calls))) (CallOnCollision b a)
           = count_list calls (CallOnCollision b a)"
proof (induction os arbitrary: s calls)
  case Nil
  show ?case by simp
next
  case (Cons obj os)
  let ?s1 = "obj_update ops obj s"
  let ?c1 = "calls @ [CallUpdate obj]"
  obtain s2 c2 where r: "collision_pass ops obj objs (?s1, ?c1) = (s2, c2)"
    by (cases "collision_pass ops obj objs (?s1, ?c1)")
  have c2: "c2 = snd (collision_pass ops obj objs (?s1, ?c1))" using r by simp
  consider (A) "obj = a" | (B) "obj = b" | (O) "obj \<noteq> a" "obj \<noteq> b" by blast
  then show ?case
  proof cases
    case A
    have "count_list c2 (CallOnCollision a b) = count_list calls (CallOnCollision a b)"
      unfolding c2 A using collision_pass_outer_miss[OF ne miss] by simp
    moreover have "count_list c2 (CallOnCollision b a) = count_list calls (CallOnCollision b a)"
      unfolding c2 A using collision_pass_inner_miss[OF ne[symmetric] miss] by simp
    ultimately show ?thesis
      using Cons.IH[of s2 c2] Cons.IH[of ?s1 ?c1] A objs r by (simp add: Let_def)
  next
    case B
    then show ?thesis using Cons.IH[of ?s1 ?c1] mb ne by (simp add: Let_def)
  next
    case O
    have "count_list c2 (CallOnCollision a b) = count_list calls (CallOnCollision a b)"
      unfolding c2 by (simp add: collision_pass_unrelated[OF O])
    moreover have "count_list c2 (CallOnCollision b a) = count_list calls (CallOnCollision b a)"
      unfolding c2 by (simp add: collision_pass_unrelated[OF O(2) O(1)])
    ultimately show ?thesis
      using Cons.IH[of s2 c2] Cons.IH[of ?s1 ?c1] O objs r by (simp add: Let_def)
  qed
qed

lemma update_pass_hit_twice:
  assumes objs: "\<forall>s. game_objects ops s = objs" and ne: "a \<noteq> b"
    and ma: "\<forall>s. mobile ops a s" and mb: "\<forall>s. mobile ops b s"
    and ca: "\<forall>s. collidable ops a s" and cb: "\<forall>s. collidable ops b s"
    and hab: "\<forall>s. collides_with ops a b s" and hba: "\<forall>s. collides_with ops b a s"
  shows "count_list (snd (update_pass ops os (s, calls))) (CallOnCollision a b)
           = count_list calls (CallOnCollision a b)
             + count_list os a * count_list objs b + count_list os b * count_list objs a"
proof (induction os arbitrary: s calls)
  case Nil
  show ?case by simp
next
  case (Cons obj os)
  let ?s1 = "obj_update ops obj s"
  let ?c1 = "calls @ [CallUpdate obj]"
  obtain s2 c2 where r: "collision_pass ops obj objs (?s1, ?c1) = (s2, c2)"
    by (cases "collision_pass ops obj objs (?s1, ?c1)")
  have c2: "c2 = snd (collision_pass ops obj objs (?s1, ?c1))" using r by simp
  consider (A) "obj = a" | (B) "obj = b" | (O) "obj \<noteq> a" "obj \<noteq> b" by blast
  then show ?case
  proof cases
    case A
    have "count_list c2 (CallOnCollision a b) = count_list calls (CallOnCollision a b) + count_list objs b"
      unfolding c2 A using collision_pass_outer_hit[OF ne cb hab] by simp
    then show ?thesis
      using Cons.IH[of s2 c2] A ma ne objs r by (simp add: Let_def)
  next
    case B
    have "count_list c2 (CallOnCollision a b) = count_list calls (CallOnCollision a b) + count_list objs a"
      unfolding c2 B using collision_pass_inner_hit[OF ne ca hba] by simp
    then show ?thesis
      using Cons.IH[of s2 c2] B mb ne objs r by (simp add: Let_def)
  next
    case O
    have "count_list c2 (CallOnCollision a b) = count_list calls (CallOnCollision a b)"
      unfolding c2 by (simp add: collision_pass_unrelated[OF O])
    then show ?thesis
      using Cons.IH[of s2 c2] Cons.IH[of ?s1 ?c1] O objs r by (simp add: Let_def)
  qed
qed

lemma update_within:
  assumes "\<forall>s. game_objects ops s = objs"
  shows "calls_within (set objs) (snd (update ops s0))"
  unfolding update_def
  using update_pass_within[of "set objs" "[]" "game_objects ops s0" ops s0] assms
  by (simp add: calls_within_def)

text \<open>
  Claim C9: in a tick over a game-object list that holds \<open>a\<close> and \<open>b\<close> once each, \<open>a\<close>
  mobile and collidable, \<open>b\<close> collidable and not mobile, the calls \<open>a.on_collision(b)\<close> and
  \<open>b.on_collision(a)\<close> are made exactly once each when \<open>a.collides_with(b)\<close> holds during the
  tick and not at all when it does not; when \<open>a\<close> and \<open>b\<close> are the only objects, these are
  all the \<open>on_collision\<close> calls made on them.
\<close>

theorem update_mobile_against_stationary:
  assumes "\<forall>s. game_objects ops s = objs"
    and "count_list objs a = 1" and "count_list objs b = 1" and "a \<noteq> b"
    and "\<forall>s. mobile ops a s \<and> collidable ops a s"
    and "\<forall>s. collidable ops b s \<and> \<not> mobile ops b s"
  shows "((\<forall>s. collides_with ops a b s) \<longrightarrow>
            count_list (snd (update ops s0)) (CallOnCollision a b) = 1 \<and>
            count_list (snd (update ops s0)) (CallOnCollision b a) = 1 \<and>
            (set objs = {a, b} \<longrightarrow>
               invocations_on a (snd (update ops s0)) = 1 \<and>
               invocations_on b (snd (update ops s0)) = 1)) \<and>
         ((\<forall>s. \<not> collides_with ops a b s) \<longrightarrow>
            count_list (snd (update ops s0)) (CallOnCollision a b) = 0 \<and>
            count_list (snd (update ops s0)) (CallOnCollision b a) = 0 \<and>
            (set objs = {a, b} \<longrightarrow>
               invocations_on a (snd (update ops s0)) = 0 \<and>
               invocations_on b (snd (update ops s0)) = 0))"
proof -
  have pair: "set objs = {a, b} \<Longrightarrow>
      invocations_on a (snd (update ops s0)) = count_list (snd (update ops s0)) (CallOnCollision a b) \<and>
      invocations_on b (snd (update ops s0)) = count_list (snd (update ops s0)) (CallOnCollision b a)"
  proof -
    assume eq: "set objs = {a, b}"
    have w: "calls_within {a, b} (snd (update ops s0))"
      using update_within[OF assms(1), of s0] eq by simp
    have w': "calls_within {b, a} (snd (update ops s0))"
      using w by (simp add: insert_commute)
    show ?thesis
      using invocations_on_pair[OF w assms(4)] invocations_on_pair[OF w' assms(4)[symmetric]]
      by simp
  qed
  have hit: "\<forall>s. collides_with ops a b s \<Longrightarrow>
       count_list (snd (update ops s0)) (CallOnCollision a b) = 1 \<and>
       count_list (snd (update ops s0)) (CallOnCollision b a) = 1"
    using update_pass_hit_once[of ops objs a b objs s0 "[]"] assms
    by (simp add: update_def)
  have miss: "\<forall>s. \<not> collides_with ops a b s \<Longrightarrow>
       count_list (snd (update ops s0)) (CallOnCollision a b) = 0 \<and>
       count_list (snd (update ops s0)) (CallOnCollision b a) = 0"
    using update_pass_miss[of ops objs a b objs s0 "[]"] assms
    by (simp add: update_def)
  show ?thesis using pair hit miss by auto
qed

text \<open>The tick over a mob and a wall, overlapping and not overlapping.\<close>

theorem update_mobile_against_stationary_witness:
  "count_list (snd (update (mob_and_wall True) 0)) (CallOnCollision 0 1) = 1 \<and>
   count_list (snd (update (mob_and_wall True) 0)) (CallOnCollision 1 0) = 1 \<and>
   invocations_on 0 (snd (update (mob_and_wall True) 0)) = 1 \<and>
   invocations_on 1 (snd (update (mob_and_wall True) 0)) = 1 \<and>
   count_list (snd (update (mob_and_wall False) 0)) (CallOnCollision 0 1) = 0 \<and>
   count_list (snd (update (mob_and_wall False) 0)) (CallOnCollision 1 0) = 0 \<and>
   invocations_on 0 (snd (update (mob_and_wall False) 0)) = 0 \<and>
   invocations_on 1 (snd (update (mob_and_wall False) 0)) = 0"
proof -
  have objs: "\<forall>s. game_objects (mob_and_wall v) s = [0, 1]" for v
    by (simp add: game_objects_def mob_and_wall_def)
  have flags: "\<forall>s. mobile (mob_and_wall v) 0 s \<and> collidable (mob_and_wall v) 0 s"
    "\<forall>s. collidable (mob_and_wall v) 1 s \<and> \<not> mobile (mob_and_wall v) 1 s" for v
    by (simp_all add: mob_and_wall_def)
  have hit: "\<forall>s. collides_with (mob_and_wall True) 0 1 s"
    and miss: "\<forall>s. \<not> collides_with (mob_and_wall False) 0 1 s"
    by (simp_all add: mob_and_wall_def)
  have s: "set [0, 1::nat] = {0, 1}" by simp
  show ?thesis
    using update_mobile_against_stationary[of "mob_and_wall True" "[0, 1]" 0 1 0]
      update_mobile_against_stationary[of "mob_and_wall False" "[0, 1]" 0 1 0]
      objs flags hit miss s
    by simp
qed

text \<open>
  Claim C10: when \<open>a\<close> and \<open>b\<close> are both mobile and collidable and collide in both
  directions, each of the calls \<open>a.on_collision(b)\<close> and \<open>b.on_collision(a)\<close> is made exactly
  twice in a tick, once with \<open>a\<close> and once with \<open>b\<close> as the outer iterand; when they are the
  only objects, \<open>on_collision\<close> is invoked exactly twice on each.
\<close>

theorem update_two_mobiles_twice:
  assumes "\<forall>s. game_objects ops s = objs"
    and "count_list objs a = 1" and "count_list objs b = 1" and "a \<noteq> b"
    and "\<forall>s. mobile ops a s \<and> collidable ops a s"
    and "\<forall>s. mobile ops b s \<and> collidable ops b s"
    and "\<forall>s. collides_with ops a b s \<and> collides_with ops b a s"
  shows "count_list (snd (update ops s0)) (CallOnCollision a b) = 2 \<and>
         count_list (snd (update ops s0)) (CallOnCollision b a) = 2 \<and>
         (set objs = {a, b} \<longrightarrow>
            invocations_on a (snd (update ops s0)) = 2 \<and>
            invocations_on b (snd (update ops s0)) = 2)"
proof -
  have ab: "count_list (snd (update ops s0)) (CallOnCollision a b) = 2"
    using update_pass_hit_twice[of ops objs a b objs s0 "[]"] assms
    by (simp add: update_def)
  have ba: "count_list (snd (update ops s0)) (CallOnCollision b a) = 2"
    using update_pass_hit_twice[of ops objs b a objs s0 "[]"] assms
    by (simp add: update_def)
  have "invocations_on a (snd (update ops s0)) = 2 \<and> invocations_on b (snd (update ops s0)) = 2"
    if eq: "set objs = {a, b}"
  proof -
    have w: "calls_within {a, b} (snd (update ops s0))"
      using update_within[OF assms(1), of s0] eq by simp
    have w': "calls_within {b, a} (snd (update ops s0))"
      using w by (simp add: insert_commute)
    show ?thesis
      using invocations_on_pair[OF w assms(4)] invocations_on_pair[OF w' assms(4)[symmetric]] ab ba
      by simp
  qed
  then show ?thesis using ab ba by blast
qed

text \<open>The tick over two overlapping mobs.\<close>

theorem update_two_mobiles_twice_witness:
  "count_list (snd (update two_mobs 0)) (CallOnCollision 0 1) = 2 \<and>
   count_list (snd (update two_mobs 0)) (CallOnCollision 1 0) = 2 \<and>
   invocations_on 0 (snd (update two_mobs 0)) = 2 \<and>
   invocations_on 1 (snd (update two_mobs 0)) = 2"
proof -
  have objs: "\<forall>s. game_objects two_mobs s = [0, 1]"
    by (simp add: game_objects_def two_mobs_def)
  have flags: "\<forall>s. mobile two_mobs 0 s \<and> collidable two_mobs 0 s"
    "\<forall>s. mobile two_mobs 1 s \<and> collidable two_mobs 1 s"
    "\<forall>s. collides_with two_mobs 0 1 s \<and> collides_with two_mobs 1 0 s"
    by (simp_all add: two_mobs_def)
  have s: "set [0, 1::nat] = {0, 1}" by simp
  show ?thesis
    using update_two_mobiles_twice[of two_mobs "[0, 1]" 0 1 0] objs flags s by simp
qed


section \<open>Properties of hydration: \<open>load_blocks\<close> and \<open>link_blocks\<close>\<close>

text \<open>
  Claim C7, on the code: \<open>load_blocks\<close> on a chunk without a record does raise, but what it
  raises is \<open>NameError\<close> for the unbound name \<open>NoDatabaseObject\<close>, not the imported
  \<open>NoDatabaseModel\<close>.
\<close>

theorem load_blocks_without_record:
  "load_blocks cfg (ch\<lparr>db_obj := None\<rparr>) st = Inl (NameError ''NoDatabaseObject'')"
  by (simp add: load_blocks_def)

text \<open>
  Claim C3, on the code: hydrating the persisted chunk at the origin sorts its four records
  into the grid \<open>[[1, 2], [3, 0]]\<close>, and the block in column 0 of row 1 (reference 3) does
  get a south-west link: to the last block of row 0 (reference 2), since \<open>b_i - 1\<close> is
  \<open>-1\<close> there.
\<close>

theorem load_blocks_links_first_column_south_west:
  "map_sum id (\<lambda>(ch, st). (grid ch, blk_link (heap st ! 3) DirSW))
     (load_blocks cfg22 (unsaved_chunk\<lparr>db_obj := Some origin_row\<rparr>) persisted_store)
   = Inr ([[1, 2], [3, 0]], Some 2)"
  by code_simp



lemma length_set_link [simp]: "length (set_link h a d v) = length h"
  by (simp add: set_link_def)


















section \<open>Properties of generation: \<open>build_blocks\<close> and \<open>load\<close>\<close>

text \<open>
  Claim C6, on the code: when \<open>build_blocks\<close> returns for the new chunk at the origin of an
  empty database, the flat block list is the grid in row-major order and the chunk's record
  is committed, but the table of blocks is empty: \<open>save\<close> ran before \<open>self.blocks\<close> was set.
\<close>

theorem build_blocks_persists_no_block:
  "map_sum id (\<lambda>(ch, st). (grid ch, blocks ch, block_rows st, map row_id (chunk_rows st)))
     (build_blocks cfg22 unsaved_chunk empty_store)
   = Inr ([[0, 1], [2, 3]], [0, 1, 2, 3], [], [Some 0])"
  by code_simp

lemma load_absent:
  "query_chunk st x y = None \<Longrightarrow> load cfg x y False st = Inr (None, st)"
  by (simp add: load.simps)

lemma load_present:
  "query_chunk st x y = Some row \<Longrightarrow>
   load cfg x y create st =
     (case load_from_db_obj cfg row st of
        Inl e \<Rightarrow> Inl e
      | Inr (ch, st1) \<Rightarrow> Inr (Some ch, st1))"
  by (simp add: load.simps)

lemma load_fresh:
  "query_chunk st x y = None \<Longrightarrow>
   load cfg x y True st =
     (case Chunk cfg x y None of
        Inl e \<Rightarrow> Inl e
      | Inr ch \<Rightarrow>
          (case build_blocks cfg ch st of
             Inl e \<Rightarrow> Inl e
           | Inr (ch1, st1) \<Rightarrow> (case save ch1 st1 of (ch2, st2) \<Rightarrow> Inr (Some ch2, st2))))"
  by (simp add: load.simps)

text \<open>Hydration writes the store of blocks only.\<close>

lemma load_blocks_tables:
  "load_blocks cfg ch st = Inr (ch', st') \<Longrightarrow>
   chunk_rows st' = chunk_rows st \<and> block_rows st' = block_rows st"
  by (auto simp: load_blocks_def Let_def bindE_def split: option.splits sum.splits)

lemma load_from_db_obj_tables:
  "load_from_db_obj cfg row st = Inr (ch', st') \<Longrightarrow>
   chunk_rows st' = chunk_rows st \<and> block_rows st' = block_rows st"
  by (auto simp: load_from_db_obj_def bindE_def split: sum.splits dest: load_blocks_tables)

lemma load_nocreate_tables:
  assumes "load cfg x y False st = Inr (r, st')"
  shows "chunk_rows st' = chunk_rows st \<and> block_rows st' = block_rows st"
proof (cases "query_chunk st x y")
  case None
  then show ?thesis using assms by (simp add: load_absent)
next
  case (Some row)
  then show ?thesis
    using assms by (auto simp: load_present split: sum.splits dest: load_from_db_obj_tables)
qed

lemma block_save_chunk_rows [simp]: "chunk_rows (block_save a st) = chunk_rows st"
  by (simp add: block_save_def split: option.splits)

lemma save_block_chunk_rows [simp]: "chunk_rows (save_block cid a st) = chunk_rows st"
  by (simp add: save_block_def Let_def split: option.splits)

lemma fold_save_block_chunk_rows [simp]:
  "chunk_rows (fold (save_block cid) as st) = chunk_rows st"
  by (induction as arbitrary: st) simp_all

lemma save_unsaved:
  assumes "db_obj ch = None" "blocks ch = []"
  shows "save ch st = (ch\<lparr>db_obj := Some (fresh_row st ch)\<rparr>,
                       st\<lparr>chunk_rows := chunk_rows st @ [fresh_row st ch]\<rparr>)"
  using assms by (simp add: save_def commit_chunk_def fresh_row_def Let_def)

lemma save_saved_rows:
  assumes "db_obj ch = Some row" "row_id row = Some k"
  shows "chunk_rows (snd (save ch st)) =
           (chunk_rows st)[k := row\<lparr>row_x := chunk_x ch, row_y := chunk_y ch,
                                   row_name := chunk_name ch\<rparr>]"
  using assms by (simp add: save_def commit_chunk_def Let_def split: prod.splits)

lemma build_grid_result:
  assumes "build_grid cfg cw cs ch st = Inr (ch1, st1)" "db_obj ch = None" "blocks ch = []"
  shows "\<exists>rows cols g h.
           floordiv (chunk_height ch) (block_height cfg) = Inr rows \<and>
           floordiv (chunk_width ch) (block_width cfg) = Inr cols \<and>
           build_rows cfg cw cs cols (py_range rows) [] (heap st) = Inr (g, h) \<and>
           ch1 = ch\<lparr>grid := g, db_obj := Some (fresh_row st ch), blocks := concat g\<rparr> \<and>
           st1 = st\<lparr>heap := h, chunk_rows := chunk_rows st @ [fresh_row st ch]\<rparr>"
  using assms
  by (auto simp: build_grid_def bindE_def save_unsaved fresh_row_def split: sum.splits)

lemma build_blocks_result:
  assumes "build_blocks cfg ch st = Inr (ch1, st1)" "db_obj ch = None" "blocks ch = []"
  shows "\<exists>cw cs sw ss. 
           load cfg (chunk_x ch - 1) (chunk_y ch) False st = Inr (cw, sw) \<and>
           load cfg (chunk_x ch) (chunk_y ch - 1) False sw = Inr (cs, ss) \<and>
           build_grid cfg cw cs ch ss = Inr (ch1, st1)"
  using assms by (auto simp: build_blocks.simps split: sum.splits)

lemma save_saved:
  assumes "db_obj ch = Some row" "row_id row = Some k"
  shows "save ch st =
           (ch\<lparr>db_obj := Some (row\<lparr>row_x := chunk_x ch, row_y := chunk_y ch,
                                     row_name := chunk_name ch\<rparr>)\<rparr>,
            (fold (save_block (Some k)) (blocks ch) st)
              \<lparr>chunk_rows := (chunk_rows st)[k := row\<lparr>row_x := chunk_x ch, row_y := chunk_y ch,
                                                     row_name := chunk_name ch\<rparr>]\<rparr>)"
  using assms by (simp add: save_def commit_chunk_def Let_def)

lemma Chunk_result:
  assumes "Chunk cfg x y nm = Inr ch"
  shows "db_obj ch = None \<and> blocks ch = [] \<and> grid ch = [] \<and> chunk_x ch = x \<and> chunk_y ch = y \<and>
         chunk_width ch = window_width cfg \<and> chunk_height ch = window_height cfg \<and>
         n_rows ch = window_height cfg div block_height cfg \<and>
         n_cols ch = window_width cfg div block_width cfg \<and>
         block_height cfg \<noteq> 0 \<and> block_width cfg \<noteq> 0"
  using assms by (auto simp: Chunk_def bindE_def floordiv_def split: if_splits)

lemma load_fresh_result:
  assumes "query_chunk st x y = None" "load cfg x y True st = Inr (r, st')"
  shows "\<exists>ch cw cs sw ss g h.
           Chunk cfg x y None = Inr ch \<and>
           load cfg (x - 1) y False st = Inr (cw, sw) \<and>
           load cfg x (y - 1) False sw = Inr (cs, ss) \<and>
           build_rows cfg cw cs (n_cols ch) (py_range (n_rows ch)) [] (heap ss) = Inr (g, h) \<and>
           r = Some (ch\<lparr>grid := g, db_obj := Some (fresh_row st ch), blocks := concat g\<rparr>) \<and>
           st' = (fold (save_block (Some (length (chunk_rows st)))) (concat g)
                    (ss\<lparr>heap := h, chunk_rows := chunk_rows st @ [fresh_row st ch]\<rparr>))
                 \<lparr>chunk_rows := chunk_rows st @ [fresh_row st ch]\<rparr>"
proof -
  obtain ch ch1 st1 where ch: "Chunk cfg x y None = Inr ch"
    and bb: "build_blocks cfg ch st = Inr (ch1, st1)"
    and sv: "save ch1 st1 = (the r, st')" and r: "r \<noteq> None"
    using assms by (auto simp: load_fresh split: sum.splits prod.splits)
  note c = Chunk_result[OF ch]
  from build_blocks_result[OF bb] c obtain cw cs sw ss where
    lw: "load cfg (x - 1) y False st = Inr (cw, sw)"
    and ls: "load cfg x (y - 1) False sw = Inr (cs, ss)"
    and bg: "build_grid cfg cw cs ch ss = Inr (ch1, st1)"
    by auto
  have rows: "chunk_rows ss = chunk_rows st"
    using load_nocreate_tables[OF lw] load_nocreate_tables[OF ls] by simp
  have fr: "fresh_row ss ch = fresh_row st ch"
    by (simp add: fresh_row_def rows)
  from build_grid_result[OF bg] c obtain g h where
    br: "build_rows cfg cw cs (n_cols ch) (py_range (n_rows ch)) [] (heap ss) = Inr (g, h)"
    and ch1: "ch1 = ch\<lparr>grid := g, db_obj := Some (fresh_row st ch), blocks := concat g\<rparr>"
    and st1: "st1 = ss\<lparr>heap := h, chunk_rows := chunk_rows st @ [fresh_row st ch]\<rparr>"
    by (auto simp: floordiv_def fr rows)
  have sv': "save ch1 st1 =
      (ch1, (fold (save_block (Some (length (chunk_rows st)))) (concat g) st1)
              \<lparr>chunk_rows := chunk_rows st @ [fresh_row st ch]\<rparr>)"
    using save_saved[of ch1 "fresh_row st ch" "length (chunk_rows st)" st1]
    by (simp add: ch1 st1 fresh_row_def)
  show ?thesis
    using ch lw ls br sv sv' r ch1 st1 by auto
qed

lemma find_append_miss:
  "\<not> P r \<Longrightarrow> find P (xs @ [r]) = find P xs"
  by (induction xs) auto

lemma find_append_hit: "find P xs = None \<Longrightarrow> P r \<Longrightarrow> find P (xs @ [r]) = Some r"
  by (induction xs) (auto split: if_splits)

lemma load_nocreate_result:
  assumes "load cfg x y False st = Inr (nb, st')"
  shows "(query_chunk st x y = None \<longrightarrow> nb = None \<and> st' = st) \<and>
         (\<forall>row. query_chunk st x y = Some row \<longrightarrow>
            (\<exists>w. nb = Some w \<and> load_from_db_obj cfg row st = Inr (w, st')))"
proof (cases "query_chunk st x y")
  case None
  then show ?thesis using assms by (simp add: load_absent)
next
  case (Some row)
  then show ?thesis using assms by (auto simp: load_present split: sum.splits)
qed

text \<open>
  Claim C4, as the code has it: while a chunk that is not persisted yet is generated at
  \<open>(x, y)\<close>, \<open>build_blocks\<close> looks up the west neighbour \<open>(x - 1, y)\<close> and then the south
  neighbour \<open>(x, y - 1)\<close> through \<open>load\<close> with \<open>create\<close> left at \<open>False\<close>. A neighbour
  that is persisted is hydrated from its record; a missing one yields \<open>None\<close> and leaves the
  store as it is. The grid of the new chunk is grown against these two results. When the
  \<open>load\<close> returns, \<open>(x, y)\<close> is persisted under the record of the returned chunk, and every
  other coordinate is persisted afterwards exactly if it was before: a missing neighbour is
  not created.
\<close>

theorem generation_looks_neighbours_up_without_create:
  assumes "query_chunk st x y = None" and "load cfg x y True st = Inr (r, st')"
  shows "\<exists>ch cw cs sw ss g h.
           load cfg (x - 1) y False st = Inr (cw, sw) \<and>
           load cfg x (y - 1) False sw = Inr (cs, ss) \<and>
           (query_chunk st (x - 1) y = None \<longrightarrow> cw = None \<and> sw = st) \<and>
           (\<forall>row. query_chunk st (x - 1) y = Some row \<longrightarrow>
              (\<exists>w. cw = Some w \<and> load_from_db_obj cfg row st = Inr (w, sw))) \<and>
           (query_chunk st x (y - 1) = None \<longrightarrow> cs = None \<and> ss = sw) \<and>
           (\<forall>row. query_chunk st x (y - 1) = Some row \<longrightarrow>
              (\<exists>s. cs = Some s \<and> load_from_db_obj cfg row sw = Inr (s, ss))) \<and>
           build_rows cfg cw cs (n_cols ch) (py_range (n_rows ch)) [] (heap ss) = Inr (g, h) \<and>
           r = Some ch \<and> chunk_x ch = x \<and> chunk_y ch = y \<and> grid ch = g \<and>
           db_obj ch \<noteq> None \<and> query_chunk st' x y = db_obj ch \<and>
           (\<forall>x' y'. (x', y') \<noteq> (x, y) \<longrightarrow> query_chunk st' x' y' = query_chunk st x' y')"
proof -
  from load_fresh_result[OF assms] obtain ch cw cs sw ss g h where
    ch: "Chunk cfg x y None = Inr ch"
    and lw: "load cfg (x - 1) y False st = Inr (cw, sw)"
    and ls: "load cfg x (y - 1) False sw = Inr (cs, ss)"
    and br: "build_rows cfg cw cs (n_cols ch) (py_range (n_rows ch)) [] (heap ss) = Inr (g, h)"
    and r: "r = Some (ch\<lparr>grid := g, db_obj := Some (fresh_row st ch), blocks := concat g\<rparr>)"
    and rows: "chunk_rows st' = chunk_rows st @ [fresh_row st ch]"
    by auto
  note c = Chunk_result[OF ch]
  have key: "row_x (fresh_row st ch) = x \<and> row_y (fresh_row st ch) = y"
    using c by (simp add: fresh_row_def)
  have qs: "query_chunk sw x (y - 1) = query_chunk st x (y - 1)"
    using load_nocreate_tables[OF lw] by (simp add: query_chunk_def)
  have own: "query_chunk st' x y = Some (fresh_row st ch)"
    using assms(1) key rows find_append_hit[of "\<lambda>r. row_x r = x \<and> row_y r = y" "chunk_rows st"]
    by (simp add: query_chunk_def)
  have others: "query_chunk st' x' y' = query_chunk st x' y'" if "(x', y') \<noteq> (x, y)" for x' y'
    using that key rows by (auto simp: query_chunk_def find_append_miss)
  let ?ch = "ch\<lparr>grid := g, db_obj := Some (fresh_row st ch), blocks := concat g\<rparr>"
  have main: "load cfg (x - 1) y False st = Inr (cw, sw) \<and>
           load cfg x (y - 1) False sw = Inr (cs, ss) \<and>
           (query_chunk st (x - 1) y = None \<longrightarrow> cw = None \<and> sw = st) \<and>
           (\<forall>row. query_chunk st (x - 1) y = Some row \<longrightarrow>
              (\<exists>w. cw = Some w \<and> load_from_db_obj cfg row st = Inr (w, sw))) \<and>
           (query_chunk st x (y - 1) = None \<longrightarrow> cs = None \<and> ss = sw) \<and>
           (\<forall>row. query_chunk st x (y - 1) = Some row \<longrightarrow>
              (\<exists>s. cs = Some s \<and> load_from_db_obj cfg row sw = Inr (s, ss))) \<and>
           build_rows cfg cw cs (n_cols ?ch) (py_range (n_rows ?ch)) [] (heap ss) = Inr (g, h) \<and>
           r = Some ?ch \<and> chunk_x ?ch = x \<and> chunk_y ?ch = y \<and> grid ?ch = g \<and>
           db_obj ?ch \<noteq> None \<and> query_chunk st' x y = db_obj ?ch \<and>
           (\<forall>x' y'. (x', y') \<noteq> (x, y) \<longrightarrow> query_chunk st' x' y' = query_chunk st x' y')"
    using lw ls load_nocreate_result[OF lw] load_nocreate_result[OF ls] br r c own others
    by (simp add: qs)
  show ?thesis
    by (rule exI[of _ ?ch], rule exI[of _ cw], rule exI[of _ cs], rule exI[of _ sw],
        rule exI[of _ ss], rule exI[of _ g], rule exI[of _ h], rule main)
qed

lemma has_shape_row: "has_shape g r c \<Longrightarrow> i < r \<Longrightarrow> length (g ! i) = c"
  by (auto simp: has_shape_def list_all_length)

lemma has_shape_last: "has_shape g r c \<Longrightarrow> 0 < r \<Longrightarrow> length (last g) = c"
  by (cases g rule: rev_cases) (auto simp: has_shape_def)

lemma has_shape_append:
  "has_shape g r c \<Longrightarrow> length row = c \<Longrightarrow> has_shape (g @ [row]) (Suc r) c"
  by (auto simp: has_shape_def)

lemma py_index_nonneg: "0 \<le> i \<Longrightarrow> i < int (length xs) \<Longrightarrow> py_index xs i = Inr (xs ! nat i)"
  by (simp add: py_index_def)

lemma py_index_last: "xs \<noteq> [] \<Longrightarrow> py_index xs (- 1) = Inr (last xs)"
  by (cases xs rule: rev_cases) (auto simp: py_index_def nat_add_distrib nth_append)

lemma grid_at_inner:
  assumes "has_shape g r c" "0 \<le> i" "i < int r" "0 \<le> j" "j < int c"
  shows "grid_at g i j = Inr (g ! nat i ! nat j)"
proof -
  have "py_index g i = Inr (g ! nat i)"
    using assms py_index_nonneg[of i g] by (simp add: has_shape_def)
  moreover have "length (g ! nat i) = c"
    using has_shape_row[OF assms(1), of "nat i"] assms by simp
  ultimately show ?thesis
    using assms py_index_nonneg[of j "g ! nat i"] by (simp add: grid_at_def bindE_def)
qed

lemma grid_at_row_last:
  assumes "has_shape g r c" "0 \<le> i" "i < int r" "0 < c"
  shows "grid_at g i (- 1) = Inr (last (g ! nat i))"
proof -
  have "py_index g i = Inr (g ! nat i)"
    using assms py_index_nonneg[of i g] by (simp add: has_shape_def)
  moreover have "length (g ! nat i) = c"
    using has_shape_row[OF assms(1), of "nat i"] assms by simp
  ultimately show ?thesis
    using assms py_index_last[of "g ! nat i"] by (auto simp: grid_at_def bindE_def)
qed

lemma grid_at_last_row:
  assumes "has_shape g r c" "0 < r" "0 \<le> j" "j < int c"
  shows "grid_at g (- 1) j = Inr (last g ! nat j)"
proof -
  have "py_index g (- 1) = Inr (last g)"
    using assms py_index_last[of g] by (auto simp: has_shape_def)
  then show ?thesis
    using assms has_shape_last[OF assms(1,2)] py_index_nonneg[of j "last g"]
    by (simp add: grid_at_def bindE_def)
qed

lemma grid_at_last_last:
  assumes "has_shape g r c" "0 < r" "0 < c"
  shows "grid_at g (- 1) (- 1) = Inr (last (last g))"
proof -
  have "py_index g (- 1) = Inr (last g)"
    using assms py_index_last[of g] by (auto simp: has_shape_def)
  then show ?thesis
    using assms has_shape_last[OF assms(1,2)] py_index_last[of "last g"]
    by (auto simp: grid_at_def bindE_def)
qed

lemma relinked_refl: "relinked h h"
  by (simp add: relinked_def)

lemma relinked_trans: "relinked h h1 \<Longrightarrow> relinked h1 h2 \<Longrightarrow> relinked h h2"
  by (simp add: relinked_def)

lemma put_link_contents [simp]:
  "block_contents (put_link b d v) = block_contents b" "blk_db_obj (put_link b d v) = blk_db_obj b"
  by (cases d; simp add: put_link_def block_contents_def)+

lemma set_link_relinked: "relinked h (set_link h a d v)"
proof -
  have "block_contents (set_link h a d v ! j) = block_contents (h ! j) \<and>
        blk_db_obj (set_link h a d v ! j) = blk_db_obj (h ! j)" for j
    by (cases "j = a"; cases "a < length h") (simp_all add: set_link_def list_update_beyond)
  then show ?thesis by (simp add: relinked_def)
qed

lemma relinked_set_link: "relinked h h1 \<Longrightarrow> relinked h (set_link h1 a d v)"
  using relinked_trans[OF _ set_link_relinked] .

lemma relinked_x: "relinked h h1 \<Longrightarrow> blk_x (h1 ! a) = blk_x (h ! a)"
  and relinked_y: "relinked h h1 \<Longrightarrow> blk_y (h1 ! a) = blk_y (h ! a)"
  and relinked_db: "relinked h h1 \<Longrightarrow> blk_db_obj (h1 ! a) = blk_db_obj (h ! a)"
  and relinked_length: "relinked h h1 \<Longrightarrow> length h1 = length h"
  by (auto simp: relinked_def block_contents_def dest: spec[of _ a])

lemma keeps_refl: "keeps h h"
  by (simp add: keeps_def)

lemma keeps_trans: "keeps h h1 \<Longrightarrow> keeps h1 h2 \<Longrightarrow> keeps h h2"
  by (auto simp: keeps_def)

lemma relinked_keeps: "relinked h h1 \<Longrightarrow> keeps h h1"
  by (simp add: relinked_def keeps_def)

lemma cell_post_keeps: "cell_post h nb h' px py \<Longrightarrow> keeps h h'"
  by (simp add: cell_post_def)

lemma cell_postI:
  assumes "relinked h h1" "relinked (h1 @ [b]) h'" "blk_x b = px" "blk_y b = py"
    "blk_db_obj b = None"
  shows "cell_post h (length h1) h' px py"
proof -
  have len: "length h1 = length h" "length h' = Suc (length h)"
    using assms(1,2) by (simp_all add: relinked_def)
  have new: "blk_x (h' ! length h1) = px" "blk_y (h' ! length h1) = py"
    "blk_db_obj (h' ! length h1) = None"
    using relinked_x[OF assms(2), of "length h1"] relinked_y[OF assms(2), of "length h1"]
      relinked_db[OF assms(2), of "length h1"] assms(3-5) by simp_all
  have "keeps h1 (h1 @ [b])" by (simp add: keeps_def nth_append)
  then have "keeps h h'"
    using keeps_trans[OF relinked_keeps[OF assms(1)]] keeps_trans relinked_keeps[OF assms(2)]
    by blast
  then show ?thesis using len new by (simp add: cell_post_def)
qed

lemma set_pos_new: "set_pos (h @ [b]) (length h) px py = h @ [b\<lparr>blk_x := px, blk_y := py\<rparr>]"
  by (simp add: set_pos_def)

lemma assign_link_relinked: "assign_link h g i j d v = Inr h' \<Longrightarrow> relinked h h'"
  by (auto simp: assign_link_def bindE_def set_link_relinked split: sum.splits)

lemma cell_postI2:
  assumes "relinked (h1 @ [b]) h'" "relinked h h1" "nb = length h" "blk_x b = px" "blk_y b = py"
    "blk_db_obj b = None"
  shows "cell_post h nb h' px py"
  using cell_postI[OF assms(2,1,4,5,6)] assms(3) relinked_length[OF assms(2)] by simp

lemma set_pos_new2:
  "n = length h \<Longrightarrow> set_pos (h @ [b]) n px py = h @ [b\<lparr>blk_x := px, blk_y := py\<rparr>]"
  by (simp add: set_pos_def)


lemmas relinked_intros = relinked_refl relinked_set_link

lemma set_link_fields [simp]:
  "blk_x (set_link h a d v ! j) = blk_x (h ! j)"
  "blk_y (set_link h a d v ! j) = blk_y (h ! j)"
  "blk_db_obj (set_link h a d v ! j) = blk_db_obj (h ! j)"
  "block_contents (set_link h a d v ! j) = block_contents (h ! j)"
  using set_link_relinked[of h a d v]
  by (simp_all add: relinked_x relinked_y relinked_db) (simp add: relinked_def)

lemma first_cell_post:
  assumes "neighbour_shape cw R C" "neighbour_shape cs R C" "0 < R" "0 < C"
  shows "\<exists>nb h'. first_cell cfg cw cs h = Inr (nb, h') \<and> cell_post h nb h' 0 0"
proof (cases cw)
  case None
  note cwN = None
  show ?thesis
  proof (cases cs)
    case None
    show ?thesis
      unfolding first_cell_def cwN None
      by (auto simp: alloc_def Block_def intro!: cell_postI2 relinked_intros)
  next
    case (Some s)
    then have sh: "has_shape (grid s) R C" using assms(2) by (simp add: neighbour_shape_def)
    show ?thesis
      unfolding first_cell_def cwN Some
      using grid_at_last_row[OF sh assms(3), of 0] assms(4)
      by (auto simp: bindE_def create_direction_def alloc_def set_pos_new2
          intro!: cell_postI2 relinked_intros)
  qed
next
  case (Some w)
  note cwS = Some
  then have shw: "has_shape (grid w) R C" using assms(1) by (simp add: neighbour_shape_def)
  have gw: "grid_at (grid w) 0 (- 1) = Inr (last (grid w ! 0))"
    using grid_at_row_last[OF shw, of 0] assms(3,4) by simp
  show ?thesis
  proof (cases cs)
    case None
    show ?thesis
      unfolding first_cell_def cwS None
      using gw
      by (auto simp: bindE_def create_direction_def alloc_def set_pos_new2
          intro!: cell_postI2 relinked_intros)
  next
    case (Some s)
    then have sh: "has_shape (grid s) R C" using assms(2) by (simp add: neighbour_shape_def)
    show ?thesis
      unfolding first_cell_def cwS Some
      using grid_at_last_row[OF sh assms(3), of 0] assms(4) gw
      by (auto simp: bindE_def create_direction_def alloc_def set_pos_new2 assign_link_def
          intro!: cell_postI2 relinked_intros)
  qed
qed

lemma grid_at_nat:
  "has_shape g r c \<Longrightarrow> i < r \<Longrightarrow> j < c \<Longrightarrow> grid_at g (int i) (int j) = Inr (g ! i ! j)"
  using grid_at_inner[of g r c "int i" "int j"] by simp

lemma grid_at_nat_last:
  "has_shape g r c \<Longrightarrow> i < r \<Longrightarrow> 0 < c \<Longrightarrow> grid_at g (int i) (- 1) = Inr (last (g ! i))"
  using grid_at_row_last[of g r c "int i"] by simp

lemma grid_at_last_row_nat:
  "has_shape g r c \<Longrightarrow> 0 < r \<Longrightarrow> j < c \<Longrightarrow> grid_at g (- 1) (int j) = Inr (last g ! j)"
  using grid_at_last_row[of g r c "int j"] by simp

lemma grid_at_west_below:
  assumes "has_shape g R C" "r' < R" "0 < C"
  shows "\<exists>v. grid_at g (int r' - 1) (- 1) = Inr v"
proof (cases r')
  case 0
  then show ?thesis using grid_at_last_last[OF assms(1) _ assms(3)] assms(2) by simp
next
  case (Suc k)
  then show ?thesis using grid_at_nat_last[OF assms(1), of k] assms by simp
qed

lemma first_column_cell_post:
  assumes g: "has_shape g (Suc r') C" and C: "2 \<le> C"
    and cw: "neighbour_shape cw R C" and R: "Suc r' < R"
    and src: "blk_x (h ! (g ! r' ! 0)) = 0" "blk_y (h ! (g ! r' ! 0)) = int r'"
  shows "\<exists>nb h'. first_column_cell cw g (int (Suc r')) 0 h = Inr (nb, h') \<and>
           cell_post h nb h' 0 (int (Suc r'))"
proof -
  have g0: "grid_at g (int r') 0 = Inr (g ! r' ! 0)"
    using grid_at_nat[OF g, of r' 0] C by simp
  have g1: "grid_at g (int r') 1 = Inr (g ! r' ! 1)"
    using grid_at_nat[OF g, of r' 1] C by simp
  show ?thesis
  proof (cases cw)
    case None
    show ?thesis
      unfolding first_column_cell_def None
      using g0 g1 src
      by (auto simp: bindE_def create_direction_def alloc_def delta_def
          intro!: cell_postI2 relinked_intros)
  next
    case (Some w)
    then have shw: "has_shape (grid w) R C" using cw by (simp add: neighbour_shape_def)
    have w1: "grid_at (grid w) (int (Suc r')) (- 1) = Inr (last (grid w ! Suc r'))"
      using grid_at_nat_last[OF shw, of "Suc r'"] R C by simp
    have w2: "grid_at (grid w) (int r') (- 1) = Inr (last (grid w ! r'))"
      using grid_at_nat_last[OF shw, of r'] R C by simp
    obtain v3 where w3: "grid_at (grid w) (int r' - 1) (- 1) = Inr v3"
      using grid_at_west_below[OF shw, of r'] R C by auto
    show ?thesis
      unfolding first_column_cell_def Some
      using g0 g1 w1 w2 w3 src
      by (auto simp: bindE_def create_direction_def alloc_def delta_def assign_link_def
          relinked_x relinked_y relinked_intros
          intro!: cell_postI2 relinked_intros)
  qed
qed

lemma last_column_cell_post:
  assumes g: "has_shape g r C" and row: "length row = Suc c'" and C: "Suc c' < C"
    and src: "blk_x (h ! last row) = int c'" "blk_y (h ! last row) = int r"
  shows "\<exists>nb h'. last_column_cell g row (int r) (int (Suc c')) h = Inr (nb, h') \<and>
           cell_post h nb h' (int (Suc c')) (int r)"
proof -
  have l: "py_index row (- 1) = Inr (last row)"
  proof -
    have "row \<noteq> []" using row by auto
    then show ?thesis by (rule py_index_last)
  qed
  show ?thesis
  proof (cases r)
    case 0
    show ?thesis
      unfolding last_column_cell_def 0
      using l src 0
      by (auto simp: bindE_def create_direction_def alloc_def delta_def
          intro!: cell_postI2 relinked_intros)
  next
    case (Suc r')
    have g1: "grid_at g (int r') (int (Suc c')) = Inr (g ! r' ! Suc c')"
      using grid_at_nat[OF g, of r' "Suc c'"] C Suc by simp
    have g2: "grid_at g (int r') (int c') = Inr (g ! r' ! c')"
      using grid_at_nat[OF g, of r' c'] C Suc by simp
    show ?thesis
      unfolding last_column_cell_def Suc
      using l src g1 g2 Suc
      by (auto simp: bindE_def create_direction_def alloc_def delta_def
          intro!: cell_postI2 relinked_intros)
  qed
qed

lemma other_column_cell_post:
  assumes g: "has_shape g r C" and row: "length row = Suc c'" and C: "Suc (Suc c') < C"
    and cs: "neighbour_shape cs R C" and R: "0 < R"
    and src: "blk_x (h ! last row) = int c'" "blk_y (h ! last row) = int r"
  shows "\<exists>nb h'. other_column_cell cs g row (int r) (int (Suc c')) h = Inr (nb, h') \<and>
           cell_post h nb h' (int (Suc c')) (int r)"
proof -
  have l: "py_index row (- 1) = Inr (last row)"
  proof -
    have "row \<noteq> []" using row by auto
    then show ?thesis by (rule py_index_last)
  qed
  show ?thesis
  proof (cases r)
    case 0
    show ?thesis
    proof (cases cs)
      case None
      show ?thesis
        unfolding other_column_cell_def 0 None
        using l src 0
        by (auto simp: bindE_def create_direction_def alloc_def delta_def
            intro!: cell_postI2 relinked_intros)
    next
      case (Some s)
      then have sh: "has_shape (grid s) R C" using cs by (simp add: neighbour_shape_def)
      have s1: "grid_at (grid s) (- 1) (int c') = Inr (last (grid s) ! c')"
        using grid_at_last_row_nat[OF sh R, of "c'"] C by simp
      have s2: "grid_at (grid s) (- 1) (int (Suc c')) = Inr (last (grid s) ! Suc c')"
        using grid_at_last_row_nat[OF sh R, of "Suc c'"] C by simp
      have s3: "grid_at (grid s) (- 1) (int (Suc (Suc c'))) = Inr (last (grid s) ! Suc (Suc c'))"
        using grid_at_last_row_nat[OF sh R, of "Suc (Suc c')"] C by simp
      show ?thesis
        unfolding other_column_cell_def 0 Some
        using l src 0 s1 s2 s3
        by (auto simp: bindE_def create_direction_def alloc_def delta_def add.commute
            intro!: cell_postI2 relinked_intros)
    qed
  next
    case (Suc r')
    have g1: "grid_at g (int r') (int c') = Inr (g ! r' ! c')"
      using grid_at_nat[OF g, of r' c'] C Suc by simp
    have g2: "grid_at g (int r') (int (Suc c')) = Inr (g ! r' ! Suc c')"
      using grid_at_nat[OF g, of r' "Suc c'"] C Suc by simp
    have g3: "grid_at g (int r') (int (Suc (Suc c'))) = Inr (g ! r' ! Suc (Suc c'))"
      using grid_at_nat[OF g, of r' "Suc (Suc c')"] C Suc by simp
    show ?thesis
      unfolding other_column_cell_def Suc
      using l src g1 g2 g3 Suc
      by (auto simp: bindE_def create_direction_def alloc_def delta_def add.commute
          intro!: cell_postI2 relinked_intros)
  qed
qed

lemma keeps_fields:
  assumes "keeps h h'" "a < length h"
  shows "blk_x (h' ! a) = blk_x (h ! a)" "blk_y (h' ! a) = blk_y (h ! a)"
    "blk_db_obj (h' ! a) = blk_db_obj (h ! a)" "a < length h'"
  using assms by (auto simp: keeps_def block_contents_def)

lemma placed_row_keeps: "placed_row h row r \<Longrightarrow> keeps h h' \<Longrightarrow> placed_row h' row r"
  by (simp add: placed_row_def keeps_fields)

lemma placed_keeps: "placed h g \<Longrightarrow> keeps h h' \<Longrightarrow> placed h' g"
  using placed_row_keeps unfolding placed_def by blast

lemma placed_row_snoc:
  assumes "placed_row h row r" "cell_post h nb h' (int (length row)) (int r)"
  shows "placed_row h' (row @ [nb]) r"
proof -
  have k: "keeps h h'" using assms(2) by (rule cell_post_keeps)
  have old: "placed_row h' row r" using placed_row_keeps[OF assms(1) k] .
  have new: "nb < length h'" "blk_x (h' ! nb) = int (length row)" "blk_y (h' ! nb) = int r"
    "blk_db_obj (h' ! nb) = None"
    using assms(2) by (auto simp: cell_post_def)
  show ?thesis
    unfolding placed_row_def
  proof (intro allI impI)
    fix j assume "j < length (row @ [nb])"
    then consider "j < length row" | "j = length row" by fastforce
    then show "(row @ [nb]) ! j < length h' \<and> blk_x (h' ! ((row @ [nb]) ! j)) = int j \<and>
         blk_y (h' ! ((row @ [nb]) ! j)) = int r \<and> blk_db_obj (h' ! ((row @ [nb]) ! j)) = None"
    proof cases
      case 1
      then show ?thesis using old by (simp add: placed_row_def nth_append)
    next
      case 2
      then show ?thesis using new by (simp add: nth_append)
    qed
  qed
qed

lemma placed_snoc:
  "placed h g \<Longrightarrow> placed_row h row (length g) \<Longrightarrow> placed h (g @ [row])"
  by (auto simp: placed_def nth_append less_Suc_eq)

lemma build_cell_post:
  assumes g: "has_shape g r C" and pg: "placed h g" and pr: "placed_row h row r"
    and c: "length row < C" and r: "r < R"
    and cw: "neighbour_shape cw R C" and cs: "neighbour_shape cs R C"
    and wide: "2 \<le> C \<or> r = 0"
  shows "\<exists>nb h'. build_cell cfg cw cs (int C) g row (int r) (int (length row)) h = Inr (nb, h') \<and>
           cell_post h nb h' (int (length row)) (int r)"
proof (cases "length row")
  case 0
  show ?thesis
  proof (cases r)
    case 0
    show ?thesis
      using first_cell_post[OF cw cs, of cfg h] c r \<open>length row = 0\<close> 0
      by (simp add: build_cell_def)
  next
    case (Suc r')
    have "placed_row h (g ! r') r'" "length (g ! r') = C"
      using pg g Suc by (auto simp: placed_def has_shape_def list_all_length)
    then have src: "blk_x (h ! (g ! r' ! 0)) = 0" "blk_y (h ! (g ! r' ! 0)) = int r'"
      using c by (auto simp: placed_row_def)
    show ?thesis
      using first_column_cell_post[OF g[unfolded Suc] _ cw r[unfolded Suc] src] wide Suc
        \<open>length row = 0\<close>
      by (simp add: build_cell_def)
  qed
next
  case (Suc c')
  have src: "blk_x (h ! last row) = int c'" "blk_y (h ! last row) = int r"
  proof -
    have "row \<noteq> []" using Suc by auto
    then have "last row = row ! c'" using Suc by (simp add: last_conv_nth)
    then show "blk_x (h ! last row) = int c'" "blk_y (h ! last row) = int r"
      using pr Suc by (auto simp: placed_row_def)
  qed
  show ?thesis
  proof (cases "Suc (Suc c') = C")
    case True
    then have "int (Suc c') = int C - 1" by auto
    then show ?thesis
      using last_column_cell_post[OF g Suc _ src] c Suc
      by (simp add: build_cell_def)
  next
    case False
    then have "int (Suc c') \<noteq> int C - 1" "Suc (Suc c') < C" using c Suc by auto
    then show ?thesis
      using other_column_cell_post[OF g Suc _ cs _ src] r Suc
      by (simp add: build_cell_def)
  qed
qed

lemma build_row_post:
  assumes g: "has_shape g r C" and r: "r < R"
    and cw: "neighbour_shape cw R C" and cs: "neighbour_shape cs R C"
    and wide: "2 \<le> C \<or> r = 0"
  shows "placed h g \<Longrightarrow> placed_row h row r \<Longrightarrow> length row = c \<Longrightarrow> c \<le> C \<Longrightarrow>
         \<exists>row' h'. build_row cfg cw cs (int C) g (int r) (map int [c..<C]) row h = Inr (row', h') \<and>
           length row' = C \<and> placed_row h' row' r \<and> keeps h h'"
proof (induction "C - c" arbitrary: c row h)
  case 0
  then show ?case by (auto intro: keeps_refl)
next
  case (Suc k)
  then have c: "c < C" by simp
  have upt: "[c..<C] = c # [Suc c..<C]" using c by (simp add: upt_conv_Cons)
  from build_cell_post[OF g Suc.prems(1,2) _ r cw cs wide, of cfg] c Suc.prems(3)
  obtain nb h1 where bc: "build_cell cfg cw cs (int C) g row (int r) (int c) h = Inr (nb, h1)"
    and post: "cell_post h nb h1 (int c) (int r)"
    by auto
  have k1: "keeps h h1" using post by (rule cell_post_keeps)
  have pr1: "placed_row h1 (row @ [nb]) r"
    using placed_row_snoc[OF Suc.prems(2)] post Suc.prems(3) by simp
  have pg1: "placed h1 g" using placed_keeps[OF Suc.prems(1) k1] .
  have "k = C - Suc c" using Suc.hyps(2) by simp
  from Suc.hyps(1)[OF this pg1 pr1] Suc.prems(3) c
  obtain row' h' where
    br: "build_row cfg cw cs (int C) g (int r) (map int [Suc c..<C]) (row @ [nb]) h1 = Inr (row', h')"
    and res: "length row' = C" "placed_row h' row' r" "keeps h1 h'"
    by auto
  show ?case
    using bc br res keeps_trans[OF k1 res(3)] by (simp add: upt)
qed

lemma build_rows_post:
  assumes cw: "neighbour_shape cw R C" and cs: "neighbour_shape cs R C"
    and wide: "2 \<le> C \<or> R \<le> 1"
  shows "has_shape g r C \<Longrightarrow> placed h g \<Longrightarrow> r \<le> R \<Longrightarrow>
         \<exists>g' h'. build_rows cfg cw cs (int C) (map int [r..<R]) g h = Inr (g', h') \<and>
           has_shape g' R C \<and> placed h' g' \<and> keeps h h'"
proof (induction "R - r" arbitrary: r g h)
  case 0
  then show ?case by (auto intro: keeps_refl)
next
  case (Suc k)
  then have r: "r < R" by simp
  have upt: "[r..<R] = r # [Suc r..<R]" using r by (simp add: upt_conv_Cons)
  have w: "2 \<le> C \<or> r = 0" using wide r by auto
  have "placed_row h [] r" by (simp add: placed_row_def)
  from build_row_post[OF Suc.prems(1) r cw cs w Suc.prems(2) this, of 0 cfg]
  obtain row h1 where br: "build_row cfg cw cs (int C) g (int r) (py_range (int C)) [] h = Inr (row, h1)"
    and res: "length row = C" "placed_row h1 row r" "keeps h h1"
    by (auto simp: py_range_def)
  have len: "length g = r" using Suc.prems(1) by (simp add: has_shape_def)
  have g1: "has_shape (g @ [row]) (Suc r) C"
    using has_shape_append[OF Suc.prems(1) res(1)] .
  have pg1: "placed h1 (g @ [row])"
    using placed_snoc[OF placed_keeps[OF Suc.prems(2) res(3)]] res(2) len by simp
  have "k = R - Suc r" using Suc.hyps(2) by simp
  from Suc.hyps(1)[OF this g1 pg1] r
  obtain g' h' where
    brs: "build_rows cfg cw cs (int C) (map int [Suc r..<R]) (g @ [row]) h1 = Inr (g', h')"
    and res': "has_shape g' R C" "placed h' g'" "keeps h1 h'"
    by auto
  show ?case
    using br brs res' keeps_trans[OF res(3) res'(3)] by (simp add: upt)
qed

lemma link_cell_ok:
  assumes g: "has_shape g R C" and r: "r < R" and b: "b < C"
  shows "\<exists>h'. link_cell g (int C) (int r) (int b) blk h = Inr h' \<and> relinked h h'"
proof -
  have up: "grid_at g (int r - 1) (int b) = Inr (g ! (r - 1) ! b)" if "r \<noteq> 0"
    using grid_at_nat[OF g, of "r - 1" b] r b that by (simp add: of_nat_diff)
  have upw: "\<exists>v. grid_at g (int r - 1) (int b - 1) = Inr v" if "r \<noteq> 0"
  proof (cases b)
    case 0
    then show ?thesis
      using grid_at_nat_last[OF g, of "r - 1"] r b that by (simp add: of_nat_diff)
  next
    case (Suc b')
    then show ?thesis
      using grid_at_nat[OF g, of "r - 1" b'] r b that by (simp add: of_nat_diff)
  qed
  have upe: "grid_at g (int r - 1) (int b + 1) = Inr (g ! (r - 1) ! Suc b)"
    if "r \<noteq> 0" "int b + 1 \<noteq> int C"
    using grid_at_nat[OF g, of "r - 1" "Suc b"] r b that by (simp add: of_nat_diff add.commute)
  have w: "grid_at g (int r) (int b - 1) = Inr (g ! r ! (b - 1))" if "b \<noteq> 0"
    using grid_at_nat[OF g, of r "b - 1"] r b that by (simp add: of_nat_diff)
  show ?thesis
    using up upw upe w
    by (cases "r = 0"; cases "b = 0"; cases "int b + 1 = int C")
      (auto simp: link_cell_def bindE_def intro!: relinked_intros)
qed

lemma link_row_ok:
  assumes g: "has_shape g R C" and r: "r < R"
  shows "b + length row \<le> C \<Longrightarrow>
         \<exists>h'. link_row g (int C) (int r) (int b) row h = Inr h' \<and> relinked h h'"
proof (induction row arbitrary: b h)
  case Nil
  then show ?case by (simp add: relinked_refl)
next
  case (Cons blk row)
  then have b: "b < C" by simp
  from link_cell_ok[OF g r b] obtain h1 where
    1: "link_cell g (int C) (int r) (int b) blk h = Inr h1" and k1: "relinked h h1" by blast
  from Cons.IH[of "Suc b" h1] Cons.prems obtain h' where
    2: "link_row g (int C) (int r) (int b + 1) row h1 = Inr h'" and k2: "relinked h1 h'"
    by (auto simp: add.commute)
  show ?case using 1 2 relinked_trans[OF k1 k2] by (simp add: bindE_def)
qed

lemma link_rows_ok:
  assumes g: "has_shape g R C"
  shows "r + length rows \<le> R \<Longrightarrow> list_all (\<lambda>row. length row = C) rows \<Longrightarrow>
         \<exists>h'. link_rows g (int C) (int r) rows h = Inr h' \<and> relinked h h'"
proof (induction rows arbitrary: r h)
  case Nil
  then show ?case by (simp add: relinked_refl)
next
  case (Cons row rows)
  then have r: "r < R" by simp
  from link_row_ok[OF g r, of 0 row h] Cons.prems obtain h1 where
    1: "link_row g (int C) (int r) 0 row h = Inr h1" and k1: "relinked h h1" by auto
  from Cons.IH[of "Suc r" h1] Cons.prems obtain h' where
    2: "link_rows g (int C) (int r + 1) rows h1 = Inr h'" and k2: "relinked h1 h'"
    by (auto simp: add.commute)
  show ?case using 1 2 relinked_trans[OF k1 k2] by (simp add: bindE_def)
qed

lemma link_blocks_ok:
  assumes "has_shape (grid ch) R C" "n_cols ch = int C"
  shows "\<exists>h'. link_blocks ch h = Inr h' \<and> relinked h h'"
  using link_rows_ok[OF assms(1), of 0 "grid ch" h] assms
  by (simp add: link_blocks_def has_shape_def)

lemma reshape_ok:
  assumes "length xs = R * C"
  shows "\<exists>g. reshape xs (int R) (int C) = Inr g \<and> has_shape g R C \<and> concat g = xs"
proof -
  let ?g = "map (\<lambda>r. take C (drop (r * C) xs)) [0..<R]"
  have rows: "length (take C (drop (r * C) xs)) = C" if "r < R" for r
  proof -
    have "Suc r * C \<le> R * C" using that by (simp add: Suc_leI mult_le_mono1 del: mult_Suc)
    then show ?thesis using assms by simp
  qed
  have cat: "concat (map (\<lambda>r. take C (drop (r * C) xs)) [0..<n]) = take (n * C) xs" for n
  proof (induction n)
    case 0
    show ?case by simp
  next
    case (Suc n)
    have "take (n * C) xs @ take C (drop (n * C) xs) = take (n * C + C) xs"
      by (simp add: take_add)
    then show ?case using Suc by (simp add: add.commute)
  qed
  have "reshape xs (int R) (int C) = Inr ?g"
    using assms by (simp add: reshape_def rows_of_def)
  moreover have "has_shape ?g R C"
    using rows by (simp add: has_shape_def list_all_iff)
  moreover have "concat ?g = xs" using cat[of R] assms by simp
  ultimately show ?thesis by blast
qed

lemma keeps_append: "keeps h (h @ xs)"
  by (simp add: keeps_def nth_append)

lemma load_blocks_ok:
  assumes "db_obj ch = Some row" "n_rows ch = int R" "n_cols ch = int C"
    and "length (row_blocks cfg st row) = R * C"
  shows "\<exists>ch' st'. load_blocks cfg ch st = Inr (ch', st') \<and> has_shape (grid ch') R C \<and>
           keeps (heap st) (heap st') \<and> chunk_rows st' = chunk_rows st \<and>
           block_rows st' = block_rows st"
proof -
  define loaded where "loaded = map (block_load_from_db_obj (block_rows st)) (row_blocks cfg st row)"
  define refs where "refs = [length (heap st)..<length (heap st) + length loaded]"
  define h where "h = heap st @ loaded"
  define sorted_refs where "sorted_refs = sort_key (\<lambda>a. (blk_y (h ! a), blk_x (h ! a))) refs"
  have "length sorted_refs = R * C"
    using assms(4) by (simp add: sorted_refs_def refs_def loaded_def)
  from reshape_ok[OF this] obtain g where
    g: "reshape sorted_refs (int R) (int C) = Inr g" and sh: "has_shape g R C" by blast
  from link_blocks_ok[of "ch\<lparr>blocks := refs, grid := g\<rparr>" R C h] sh assms(3) obtain h1 where
    l: "link_blocks (ch\<lparr>blocks := refs, grid := g\<rparr>) h = Inr h1" and rl: "relinked h h1"
    by auto
  have "keeps (heap st) h1"
    using keeps_trans[OF keeps_append[of "heap st" loaded] relinked_keeps[OF rl[unfolded h_def]]] .
  moreover have "load_blocks cfg ch st = Inr (ch\<lparr>blocks := refs, grid := g\<rparr>, st\<lparr>heap := h1\<rparr>)"
    using assms(1,2,3) g l
    by (simp add: load_blocks_def Let_def bindE_def loaded_def refs_def h_def sorted_refs_def)
  ultimately show ?thesis using sh by simp
qed

lemma Chunk_ok:
  assumes "valid_config cfg"
  shows "\<exists>ch. Chunk cfg x y nm = Inr ch \<and> n_rows ch = int (grid_rows cfg) \<and>
           n_cols ch = int (grid_cols cfg)"
proof -
  have "0 \<le> window_height cfg div block_height cfg" "0 \<le> window_width cfg div block_width cfg"
    using assms by (simp_all add: valid_config_def pos_imp_zdiv_nonneg_iff)
  then show ?thesis
    using assms by (simp add: Chunk_def bindE_def floordiv_def valid_config_def grid_rows_def grid_cols_def)
qed

lemma load_nocreate_ok:
  assumes "valid_config cfg" "hydratable cfg st x y"
  shows "\<exists>nb st'. load cfg x y False st = Inr (nb, st') \<and>
           neighbour_shape nb (grid_rows cfg) (grid_cols cfg) \<and>
           keeps (heap st) (heap st') \<and> chunk_rows st' = chunk_rows st \<and>
           block_rows st' = block_rows st"
proof (cases "query_chunk st x y")
  case None
  then show ?thesis by (simp add: load_absent neighbour_shape_def keeps_refl)
next
  case (Some row)
  from Chunk_ok[OF assms(1), of "row_x row" "row_y row" "Some (row_name row)"] obtain ch where
    ch: "Chunk cfg (row_x row) (row_y row) (Some (row_name row)) = Inr ch"
    and dims: "n_rows ch = int (grid_rows cfg)" "n_cols ch = int (grid_cols cfg)"
    by blast
  have len: "length (row_blocks cfg st row) = grid_rows cfg * grid_cols cfg"
    using assms(2) Some by (simp add: hydratable_def)
  from load_blocks_ok[of "ch\<lparr>db_obj := Some row\<rparr>" row "grid_rows cfg" "grid_cols cfg" cfg st]
    dims len
  obtain ch' st' where "load_blocks cfg (ch\<lparr>db_obj := Some row\<rparr>) st = Inr (ch', st')"
    "has_shape (grid ch') (grid_rows cfg) (grid_cols cfg)"
    "keeps (heap st) (heap st')" "chunk_rows st' = chunk_rows st" "block_rows st' = block_rows st"
    by auto
  then show ?thesis
    using Some ch by (simp add: load_present load_from_db_obj_def bindE_def neighbour_shape_def)
qed

lemma hydratable_tables:
  "chunk_rows st' = chunk_rows st \<Longrightarrow> block_rows st' = block_rows st \<Longrightarrow>
   hydratable cfg st' x y = hydratable cfg st x y"
  by (simp add: hydratable_def query_chunk_def row_blocks_def split: option.splits)

lemma load_fresh_compose:
  assumes q: "query_chunk st x y = None" and ch: "Chunk cfg x y None = Inr ch"
    and lw: "load cfg (x - 1) y False st = Inr (cw, sw)"
    and ls: "load cfg x (y - 1) False sw = Inr (cs, ss)"
    and br: "build_rows cfg cw cs (n_cols ch) (py_range (n_rows ch)) [] (heap ss) = Inr (g, h)"
  shows "load cfg x y True st =
           Inr (Some (ch\<lparr>grid := g, db_obj := Some (fresh_row st ch), blocks := concat g\<rparr>),
                generated_store st ss ch g h)"
proof -
  note c = Chunk_result[OF ch]
  have rows: "chunk_rows ss = chunk_rows st"
    using load_nocreate_tables[OF lw] load_nocreate_tables[OF ls] by simp
  have fr: "fresh_row ss ch = fresh_row st ch" by (simp add: fresh_row_def rows)
  have bg: "build_grid cfg cw cs ch ss =
      Inr (ch\<lparr>grid := g, db_obj := Some (fresh_row st ch), blocks := concat g\<rparr>,
           ss\<lparr>heap := h, chunk_rows := chunk_rows st @ [fresh_row st ch]\<rparr>)"
    using c br save_unsaved[of "ch\<lparr>grid := g\<rparr>" "ss\<lparr>heap := h\<rparr>"]
    by (simp add: build_grid_def bindE_def floordiv_def fr rows fresh_row_def)
  have bb: "build_blocks cfg ch st =
      Inr (ch\<lparr>grid := g, db_obj := Some (fresh_row st ch), blocks := concat g\<rparr>,
           ss\<lparr>heap := h, chunk_rows := chunk_rows st @ [fresh_row st ch]\<rparr>)"
    using c lw ls bg by (simp add: build_blocks.simps)
  show ?thesis
    using save_saved[of "ch\<lparr>grid := g, db_obj := Some (fresh_row st ch), blocks := concat g\<rparr>"
        "fresh_row st ch" "length (chunk_rows st)"
        "ss\<lparr>heap := h, chunk_rows := chunk_rows st @ [fresh_row st ch]\<rparr>"]
    by (simp add: load_fresh[OF q] ch bb fresh_row_def generated_store_def)
qed

lemma load_fresh_ok:
  assumes v: "valid_config cfg" and q: "query_chunk st x y = None"
    and hw: "hydratable cfg st (x - 1) y" and hs: "hydratable cfg st x (y - 1)"
    and wide: "2 \<le> grid_cols cfg \<or> grid_rows cfg \<le> 1"
  shows "\<exists>ch cw cs sw ss g h.
           Chunk cfg x y None = Inr ch \<and>
           load cfg (x - 1) y False st = Inr (cw, sw) \<and>
           load cfg x (y - 1) False sw = Inr (cs, ss) \<and>
           chunk_rows ss = chunk_rows st \<and> block_rows ss = block_rows st \<and>
           build_rows cfg cw cs (n_cols ch) (py_range (n_rows ch)) [] (heap ss) = Inr (g, h) \<and>
           has_shape g (grid_rows cfg) (grid_cols cfg) \<and> placed h g \<and>
           load cfg x y True st =
             Inr (Some (ch\<lparr>grid := g, db_obj := Some (fresh_row st ch), blocks := concat g\<rparr>),
                  generated_store st ss ch g h)"
proof -
  from Chunk_ok[OF v, of x y None] obtain ch where
    ch: "Chunk cfg x y None = Inr ch"
    and dims: "n_rows ch = int (grid_rows cfg)" "n_cols ch = int (grid_cols cfg)"
    by blast
  from load_nocreate_ok[OF v hw] obtain cw sw where
    lw: "load cfg (x - 1) y False st = Inr (cw, sw)"
    and shw: "neighbour_shape cw (grid_rows cfg) (grid_cols cfg)"
    and tw: "chunk_rows sw = chunk_rows st" "block_rows sw = block_rows st"
    by blast
  have "hydratable cfg sw x (y - 1)" using hs hydratable_tables[OF tw] by simp
  from load_nocreate_ok[OF v this] obtain cs ss where
    ls: "load cfg x (y - 1) False sw = Inr (cs, ss)"
    and shs: "neighbour_shape cs (grid_rows cfg) (grid_cols cfg)"
    and ts: "chunk_rows ss = chunk_rows sw" "block_rows ss = block_rows sw"
    by blast
  have "has_shape ([] :: nat list list) 0 (grid_cols cfg)" "placed (heap ss) []"
    by (simp_all add: has_shape_def placed_def)
  from build_rows_post[OF shw shs wide this, of cfg] obtain g h where
    br: "build_rows cfg cw cs (n_cols ch) (py_range (n_rows ch)) [] (heap ss) = Inr (g, h)"
    and res: "has_shape g (grid_rows cfg) (grid_cols cfg)" "placed h g"
    by (auto simp: dims py_range_def)
  show ?thesis
    using ch lw ls br res tw ts load_fresh_compose[OF q ch lw ls br] by auto
qed

lemma has_shape_concat: "has_shape g r c \<Longrightarrow> length (concat g) = r * c"
proof (induction g arbitrary: r)
  case Nil
  then show ?case by (simp add: has_shape_def)
next
  case (Cons row g)
  then have "has_shape g (length g) c" "length row = c" "r = Suc (length g)"
    by (auto simp: has_shape_def)
  then show ?case using Cons.IH[of "length g"] by simp
qed

text \<open>
  Claim C8, as the code has it: for positive block sizes, a grid at least two columns wide
  or at most one row high, and persisted neighbours with complete block records, generating
  a chunk that is not persisted yet returns a chunk of \<open>R\<close> rows and \<open>C\<close> columns with
  \<open>R * C\<close> blocks, where \<open>R\<close> and \<open>C\<close> are the floor quotients of the window's by the
  block's sizes. Nothing is required of the remainders: a window that is no multiple of the
  block size is truncated, not refused.
\<close>

theorem fresh_chunk_has_rows_times_cols_blocks:
  assumes "valid_config cfg" and "query_chunk st x y = None"
    and "hydratable cfg st (x - 1) y" and "hydratable cfg st x (y - 1)"
    and "2 \<le> grid_cols cfg \<or> grid_rows cfg \<le> 1"
  shows "\<exists>ch st'. load cfg x y True st = Inr (Some ch, st') \<and>
           n_rows ch = window_height cfg div block_height cfg \<and>
           n_cols ch = window_width cfg div block_width cfg \<and>
           int (length (blocks ch)) = n_rows ch * n_cols ch \<and>
           has_shape (grid ch) (nat (n_rows ch)) (nat (n_cols ch)) \<and>
           blocks ch = concat (grid ch)"
proof -
  from load_fresh_ok[OF assms] obtain ch ss g h where
    ch: "Chunk cfg x y None = Inr ch"
    and sh: "has_shape g (grid_rows cfg) (grid_cols cfg)"
    and l: "load cfg x y True st =
             Inr (Some (ch\<lparr>grid := g, db_obj := Some (fresh_row st ch), blocks := concat g\<rparr>),
                  generated_store st ss ch g h)"
    by blast
  note c = Chunk_result[OF ch]
  have nn: "0 \<le> window_height cfg div block_height cfg" "0 \<le> window_width cfg div block_width cfg"
    using assms(1) by (simp_all add: valid_config_def pos_imp_zdiv_nonneg_iff)
  have "int (length (concat g)) = n_rows ch * n_cols ch"
    using has_shape_concat[OF sh] c nn by (simp add: grid_rows_def grid_cols_def)
  then show ?thesis
    using l c sh by (simp add: grid_rows_def grid_cols_def)
qed

lemma cfg22_facts:
  "valid_config cfg22" "grid_rows cfg22 = 2" "grid_cols cfg22 = 2"
  "valid_config cfg_uneven" "grid_rows cfg_uneven = 2" "grid_cols cfg_uneven = 2"
  by (simp_all add: valid_config_def grid_rows_def grid_cols_def cfg22_def cfg_uneven_def)

lemma empty_store_facts:
  "query_chunk empty_store x y = None" "hydratable cfg empty_store x y"
  by (simp_all add: query_chunk_def hydratable_def empty_store_def)

text \<open>
  The two by two configuration on an empty database.
\<close>

theorem fresh_chunk_has_rows_times_cols_blocks_witness:
  "\<exists>ch st'. load cfg22 0 0 True empty_store = Inr (Some ch, st') \<and>
      n_rows ch = 2 \<and> n_cols ch = 2 \<and> length (blocks ch) = 4"
proof -
  have "2 \<le> grid_cols cfg22 \<or> grid_rows cfg22 \<le> 1" by (simp add: cfg22_facts)
  from fresh_chunk_has_rows_times_cols_blocks[OF cfg22_facts(1) empty_store_facts(1)
      empty_store_facts(2) empty_store_facts(2) this, of 0 0]
  show ?thesis by (auto simp: cfg22_def)
qed

text \<open>
  Claim C8 as stated fails: with a window of 25 by 25 pixels and blocks of 10 by 10 the
  constructor returns a chunk of two rows and two columns, and generation returns a chunk
  of four blocks; no error is raised.
\<close>

theorem uneven_window_truncates:
  "\<not> isl (Chunk cfg_uneven 0 0 None) \<and>
   n_rows (projr (Chunk cfg_uneven 0 0 None)) = 2 \<and>
   n_cols (projr (Chunk cfg_uneven 0 0 None)) = 2 \<and>
   \<not> isl (load cfg_uneven 0 0 True empty_store) \<and>
   map_option (\<lambda>ch. length (blocks ch)) (fst (projr (load cfg_uneven 0 0 True empty_store))) = Some 4"
proof -
  have w: "2 \<le> grid_cols cfg_uneven \<or> grid_rows cfg_uneven \<le> 1" by (simp add: cfg22_facts)
  from load_fresh_ok[OF cfg22_facts(4) empty_store_facts(1) empty_store_facts(2)
      empty_store_facts(2) w, of 0 0]
  obtain ch ss g h where ch: "Chunk cfg_uneven 0 0 None = Inr ch"
    and sh: "has_shape g (grid_rows cfg_uneven) (grid_cols cfg_uneven)"
    and l: "load cfg_uneven 0 0 True empty_store =
             Inr (Some (ch\<lparr>grid := g, db_obj := Some (fresh_row empty_store ch), blocks := concat g\<rparr>),
                  generated_store empty_store ss ch g h)"
    by blast
  have "n_rows ch = 2" "n_cols ch = 2"
    using Chunk_result[OF ch] by (simp_all add: cfg_uneven_def)
  moreover have "length (concat g) = 4"
    using has_shape_concat[OF sh] by (simp add: cfg22_facts)
  ultimately show ?thesis by (simp add: ch l)
qed

lemma persisted_store_facts:
  "query_chunk persisted_store 1 0 = None" "query_chunk persisted_store 1 (- 1) = None"
  "query_chunk persisted_store 0 0 = Some origin_row"
  "hydratable cfg22 persisted_store 0 0" "hydratable cfg22 persisted_store 1 (- 1)"
  by (simp_all add: query_chunk_def hydratable_def persisted_store_def origin_row_def
      row_blocks_def persisted_row_def cfg22_def grid_rows_def grid_cols_def)

text \<open>
  Generating the chunk east of the persisted origin chunk: the west neighbour is hydrated
  from its record, the south neighbour is missing and stays so, and afterwards the new
  coordinate is persisted and the origin's record is the one it was.
\<close>

theorem generation_looks_neighbours_up_without_create_witness:
  "\<exists>r st' w sw.
     load cfg22 1 0 True persisted_store = Inr (r, st') \<and>
     load cfg22 0 0 False persisted_store = Inr (Some w, sw) \<and>
     load_from_db_obj cfg22 origin_row persisted_store = Inr (w, sw) \<and>
     load cfg22 1 (- 1) False sw = Inr (None, sw) \<and>
     query_chunk st' 1 0 \<noteq> None \<and>
     query_chunk st' 1 (- 1) = None \<and>
     query_chunk st' 0 0 = Some origin_row"
proof -
  have w: "2 \<le> grid_cols cfg22 \<or> grid_rows cfg22 \<le> 1" by (simp add: cfg22_facts)
  have hw: "hydratable cfg22 persisted_store (1 - 1) 0"
    and hs: "hydratable cfg22 persisted_store 1 (0 - 1)"
    using persisted_store_facts(4,5) by simp_all
  from load_fresh_ok[OF cfg22_facts(1) persisted_store_facts(1) hw hs w]
  obtain r st' where l: "load cfg22 1 0 True persisted_store = Inr (r, st')" by blast
  from generation_looks_neighbours_up_without_create[OF persisted_store_facts(1) l]
  show ?thesis
    using l persisted_store_facts(2,3) by (auto simp: persisted_store_facts)
qed

text \<open>
  Claim C4 as stated fails: after generating the origin chunk on an empty database, neither
  the west nor the south neighbour is persisted; the table of chunks has one record.
\<close>

theorem generation_creates_no_neighbour:
  "\<not> isl (load cfg22 0 0 True empty_store) \<and>
   query_chunk (snd (projr (load cfg22 0 0 True empty_store))) (- 1) 0 = None \<and>
   query_chunk (snd (projr (load cfg22 0 0 True empty_store))) 0 (- 1) = None \<and>
   length (chunk_rows (snd (projr (load cfg22 0 0 True empty_store)))) = 1"
proof -
  have w: "2 \<le> grid_cols cfg22 \<or> grid_rows cfg22 \<le> 1" by (simp add: cfg22_facts)
  from load_fresh_ok[OF cfg22_facts(1) empty_store_facts(1) empty_store_facts(2)
      empty_store_facts(2) w, of 0 0]
  obtain ch ss g h where ch: "Chunk cfg22 0 0 None = Inr ch"
    and l: "load cfg22 0 0 True empty_store =
             Inr (Some (ch\<lparr>grid := g, db_obj := Some (fresh_row empty_store ch), blocks := concat g\<rparr>),
                  generated_store empty_store ss ch g h)"
    by blast
  have "chunk_rows (generated_store empty_store ss ch g h) = [fresh_row empty_store ch]"
    by (simp add: generated_store_def empty_store_def)
  moreover have "row_x (fresh_row empty_store ch) = 0" "row_y (fresh_row empty_store ch) = 0"
    using Chunk_result[OF ch] by (simp_all add: fresh_row_def)
  ultimately show ?thesis by (simp add: l query_chunk_def)
qed

section \<open>Links within a chunk: \<open>link_blocks\<close> and \<open>build_blocks\<close>\<close>






















lemma blk_link_db_obj [simp]: "blk_link (b\<lparr>blk_db_obj := v\<rparr>) d = blk_link b d"
  by (cases d) (simp_all add: blk_link_def)













section \<open>The round trip: \<open>load\<close> with \<open>create = True\<close> twice\<close>

lemma map_insort_key:
  "map f (insort_key (\<lambda>a. k (f a)) x xs) = insort_key k (f x) (map f xs)"
  by (induction xs) simp_all

lemma map_sort_key: "map f (sort_key (\<lambda>a. k (f a)) xs) = sort_key k (map f xs)"
  by (induction xs) (simp_all add: map_insort_key)

lemma concat_nth_shape:
  "has_shape g r c \<Longrightarrow> i < r \<Longrightarrow> j < c \<Longrightarrow> concat g ! (i * c + j) = g ! i ! j"
proof (induction g arbitrary: r i)
  case Nil
  then show ?case by (simp add: has_shape_def)
next
  case (Cons row g)
  then have sh: "has_shape g (length g) c" and len: "length row = c" and r: "r = Suc (length g)"
    by (auto simp: has_shape_def)
  show ?case
  proof (cases i)
    case 0
    then show ?thesis using Cons.prems len by (simp add: nth_append)
  next
    case (Suc i')
    then have "concat g ! (i' * c + j) = g ! i' ! j"
      using Cons.IH[OF sh, of i'] Cons.prems r by simp
    then show ?thesis using Suc len by (simp add: nth_append)
  qed
qed

lemma grids_eq_from_concat:
  assumes "has_shape g r c" "has_shape g' r c"
    and "map f (concat g) = map f' (concat g')"
  shows "map (map f) g = map (map f') g'"
proof -
  have cell: "f (g ! i ! j) = f' (g' ! i ! j)" if "i < r" "j < c" for i j
  proof -
    have "i * c + j < r * c"
    proof -
      have "i * c + j < Suc i * c" using that by simp
      also have "\<dots> \<le> r * c" using that by (simp add: Suc_leI mult_le_mono1 del: mult_Suc)
      finally show ?thesis .
    qed
    then have lt: "i * c + j < length (concat g)" "i * c + j < length (concat g')"
      using has_shape_concat[OF assms(1)] has_shape_concat[OF assms(2)] by simp_all
    have "map f (concat g) ! (i * c + j) = map f' (concat g') ! (i * c + j)"
      using assms(3) by simp
    then show ?thesis
      using lt concat_nth_shape[OF assms(1) that] concat_nth_shape[OF assms(2) that] by simp
  qed
  have len: "length g = r" "length g' = r" using assms by (simp_all add: has_shape_def)
  show ?thesis
  proof (rule nth_equalityI)
    show "length (map (map f) g) = length (map (map f') g')" using len by simp
  next
    fix i assume "i < length (map (map f) g)"
    then have i: "i < r" using len by simp
    have rows: "length (g ! i) = c" "length (g' ! i) = c"
      using has_shape_row[OF assms(1) i] has_shape_row[OF assms(2) i] by simp_all
    have "map f (g ! i) = map f' (g' ! i)"
      by (rule nth_equalityI) (use rows cell[OF i] in simp_all)
    then show "map (map f) g ! i = map (map f') g' ! i" using i len by simp
  qed
qed

lemma loaded_block_contents:
  "block_contents (block_load_from_db_obj rows i) = row_contents (rows ! i)"
  by (simp add: block_contents_def block_load_from_db_obj_def row_contents_def)

lemma key_of_contents:
  "(blk_y b, blk_x b) = contents_key (block_contents b)"
  by (simp add: contents_key_def block_contents_def)

lemma relinked_contents: "relinked h h1 \<Longrightarrow> block_contents (h1 ! a) = block_contents (h ! a)"
  by (simp add: relinked_def)

lemma load_blocks_hydrates:
  assumes "db_obj ch = Some row" "n_rows ch = int R" "n_cols ch = int C"
    and "length (row_blocks cfg st row) = R * C"
  shows "\<exists>g refs st'. load_blocks cfg ch st = Inr (ch\<lparr>blocks := refs, grid := g\<rparr>, st') \<and>
           has_shape g R C \<and>
           map (\<lambda>a. block_contents (heap st' ! a)) (concat g) = hydrated_contents cfg st row \<and>
           chunk_rows st' = chunk_rows st \<and> block_rows st' = block_rows st"
proof -
  define loaded where "loaded = map (block_load_from_db_obj (block_rows st)) (row_blocks cfg st row)"
  define refs where "refs = [length (heap st)..<length (heap st) + length loaded]"
  define h where "h = heap st @ loaded"
  define sorted_refs where "sorted_refs = sort_key (\<lambda>a. (blk_y (h ! a), blk_x (h ! a))) refs"
  have "length sorted_refs = R * C"
    using assms(4) by (simp add: sorted_refs_def refs_def loaded_def)
  from reshape_ok[OF this] obtain g where
    g: "reshape sorted_refs (int R) (int C) = Inr g" and sh: "has_shape g R C"
    and cat: "concat g = sorted_refs" by blast
  from link_blocks_ok[of "ch\<lparr>blocks := refs, grid := g\<rparr>" R C h] sh assms(3) obtain h1 where
    l: "link_blocks (ch\<lparr>blocks := refs, grid := g\<rparr>) h = Inr h1" and rl: "relinked h h1"
    by auto
  have ld: "load_blocks cfg ch st = Inr (ch\<lparr>blocks := refs, grid := g\<rparr>, st\<lparr>heap := h1\<rparr>)"
    using assms(1,2,3) g l
    by (simp add: load_blocks_def Let_def bindE_def loaded_def refs_def h_def sorted_refs_def)
  have refs_loaded: "map (\<lambda>a. h ! a) refs = loaded"
    unfolding refs_def h_def
    by (rule nth_equalityI) (simp_all add: nth_append)
  have "map (\<lambda>a. block_contents (h1 ! a)) sorted_refs
          = map (\<lambda>a. block_contents (h ! a)) sorted_refs"
    using relinked_contents[OF rl] by simp
  also have "\<dots> = sort_key contents_key (map (\<lambda>a. block_contents (h ! a)) refs)"
    unfolding sorted_refs_def key_of_contents by (rule map_sort_key)
  also have "map (\<lambda>a. block_contents (h ! a)) refs = map block_contents (map (\<lambda>a. h ! a) refs)"
    by simp
  also have "\<dots> = map (\<lambda>i. row_contents (block_rows st ! i)) (row_blocks cfg st row)"
    unfolding refs_loaded by (simp add: loaded_def loaded_block_contents)
  finally have "map (\<lambda>a. block_contents (h1 ! a)) (concat g) = hydrated_contents cfg st row"
    by (simp add: cat hydrated_contents_def)
  then show ?thesis using ld sh by auto
qed

lemma load_present_hydrates:
  assumes v: "valid_config cfg" and q: "query_chunk st x y = Some row"
    and hy: "hydratable cfg st x y"
  shows "\<exists>ch st'. load cfg x y create st = Inr (Some ch, st') \<and>
           chunk_x ch = row_x row \<and> chunk_y ch = row_y row \<and>
           chunk_name ch =
             (if row_name row \<noteq> [] then row_name row
              else ''Chunk('' @ str_int (row_x row) @ '', '' @ str_int (row_y row) @ '')'') \<and>
           has_shape (grid ch) (grid_rows cfg) (grid_cols cfg) \<and>
           map (\<lambda>a. block_contents (heap st' ! a)) (concat (grid ch)) = hydrated_contents cfg st row \<and>
           chunk_rows st' = chunk_rows st \<and> block_rows st' = block_rows st"
proof -
  from Chunk_ok[OF v, of "row_x row" "row_y row" "Some (row_name row)"] obtain ch where
    ch: "Chunk cfg (row_x row) (row_y row) (Some (row_name row)) = Inr ch"
    and dims: "n_rows ch = int (grid_rows cfg)" "n_cols ch = int (grid_cols cfg)"
    by blast
  have nm: "chunk_name ch =
             (if row_name row \<noteq> [] then row_name row
              else ''Chunk('' @ str_int (row_x row) @ '', '' @ str_int (row_y row) @ '')'')"
    using ch by (auto simp: Chunk_def bindE_def floordiv_def split: if_splits)
  note c = Chunk_result[OF ch]
  have len: "length (row_blocks cfg st row) = grid_rows cfg * grid_cols cfg"
    using hy q by (simp add: hydratable_def)
  from load_blocks_hydrates[of "ch\<lparr>db_obj := Some row\<rparr>" row "grid_rows cfg" "grid_cols cfg" cfg st]
    dims len
  obtain g refs st' where
    lb: "load_blocks cfg (ch\<lparr>db_obj := Some row\<rparr>) st
           = Inr (ch\<lparr>db_obj := Some row, blocks := refs, grid := g\<rparr>, st')"
    and res: "has_shape g (grid_rows cfg) (grid_cols cfg)"
      "map (\<lambda>a. block_contents (heap st' ! a)) (concat g) = hydrated_contents cfg st row"
      "chunk_rows st' = chunk_rows st" "block_rows st' = block_rows st"
    by auto
  show ?thesis
    using q ch lb res c nm
    by (simp add: load_present load_from_db_obj_def bindE_def)
qed

lemma hydrated_contents_tables:
  "chunk_rows st' = chunk_rows st \<Longrightarrow> block_rows st' = block_rows st \<Longrightarrow>
   hydrated_contents cfg st' row = hydrated_contents cfg st row"
  by (simp add: hydrated_contents_def row_blocks_def split: option.splits)

lemma query_chunk_tables:
  "chunk_rows st' = chunk_rows st \<Longrightarrow> query_chunk st' x y = query_chunk st x y"
  by (simp add: query_chunk_def)

lemma save_block_unsaved:
  assumes "a < length (heap s)" "blk_db_obj (heap s ! a) = None"
  shows "save_block cid a s =
           s\<lparr>heap := (heap s)[a := (heap s ! a)\<lparr>blk_db_obj := Some (length (block_rows s))\<rparr>],
             block_rows := block_rows s @ [saved_row cid (heap s ! a)]\<rparr>"
  using assms by (simp add: save_block_def block_save_def Let_def saved_row_def)

lemma fold_save_block_unsaved:
  "distinct as \<Longrightarrow> \<forall>a\<in>set as. a < length (heap s) \<and> blk_db_obj (heap s ! a) = None \<Longrightarrow>
   block_rows (fold (save_block cid) as s) = block_rows s @ map (\<lambda>a. saved_row cid (heap s ! a)) as \<and>
   length (heap (fold (save_block cid) as s)) = length (heap s) \<and>
   (\<forall>j. block_contents (heap (fold (save_block cid) as s) ! j) = block_contents (heap s ! j))"
proof (induction as arbitrary: s)
  case Nil
  show ?case by simp
next
  case (Cons a as)
  let ?s1 = "save_block cid a s"
  have a: "a < length (heap s)" "blk_db_obj (heap s ! a) = None" using Cons.prems by simp_all
  note s1 = save_block_unsaved[OF a, of cid]
  have cont: "block_contents (heap ?s1 ! j) = block_contents (heap s ! j)" for j
    using a by (cases "j = a") (simp_all add: s1 block_contents_def)
  have same: "heap ?s1 ! j = heap s ! j" if "j \<noteq> a" for j
    using that by (simp add: s1)
  have pre: "\<forall>b\<in>set as. b < length (heap ?s1) \<and> blk_db_obj (heap ?s1 ! b) = None"
  proof
    fix b assume b: "b \<in> set as"
    then have "b \<noteq> a" using Cons.prems(1) by auto
    then have "heap ?s1 ! b = heap s ! b" by (rule same)
    moreover have "length (heap ?s1) = length (heap s)" by (simp add: s1)
    ultimately show "b < length (heap ?s1) \<and> blk_db_obj (heap ?s1 ! b) = None"
      using Cons.prems(2) b by simp
  qed
  have d: "distinct as" using Cons.prems by simp
  have rows: "map (\<lambda>b. saved_row cid (heap ?s1 ! b)) as = map (\<lambda>b. saved_row cid (heap s ! b)) as"
  proof (rule map_cong[OF refl])
    fix b assume "b \<in> set as"
    then have "b \<noteq> a" using Cons.prems(1) by auto
    then show "saved_row cid (heap ?s1 ! b) = saved_row cid (heap s ! b)"
      using same[of b] by simp
  qed
  from Cons.IH[OF d pre] show ?case
    using cont rows by (simp add: s1)
qed

lemma cell_key_mono: "0 < c \<Longrightarrow> p \<le> q \<Longrightarrow> cell_key c p \<le> cell_key c q"
proof -
  assume c: "0 < c" and pq: "p \<le> q"
  have d: "p div c \<le> q div c" using pq by (rule div_le_mono)
  show ?thesis
  proof (cases "p div c = q div c")
    case True
    have "p mod c \<le> q mod c"
    proof -
      have "p = p div c * c + p mod c" "q = q div c * c + q mod c" by simp_all
      then show ?thesis using pq True by (metis add_le_cancel_left)
    qed
    then show ?thesis using True by (simp add: cell_key_def less_eq_prod_def)
  next
    case False
    then have "p div c < q div c" using d by simp
    then show ?thesis by (simp add: cell_key_def less_eq_prod_def)
  qed
qed

lemma cell_key_inj: "0 < c \<Longrightarrow> cell_key c p = cell_key c q \<Longrightarrow> p = q"
  by (metis cell_key_def div_mult_mod_eq of_nat_eq_iff prod.inject)

lemma placed_concat:
  assumes sh: "has_shape g r c" and pl: "placed h g" and p: "p < r * c"
  shows "concat g ! p < length h \<and> blk_x (h ! (concat g ! p)) = int (p mod c) \<and>
         blk_y (h ! (concat g ! p)) = int (p div c) \<and> blk_db_obj (h ! (concat g ! p)) = None"
proof -
  have c: "0 < c" using p by (cases c) auto
  have i: "p div c < r" using p c by (simp add: less_mult_imp_div_less)
  have j: "p mod c < c" using c by simp
  have "concat g ! (p div c * c + p mod c) = g ! (p div c) ! (p mod c)"
    using concat_nth_shape[OF sh i j] .
  then have e: "concat g ! p = g ! (p div c) ! (p mod c)" by simp
  have "placed_row h (g ! (p div c)) (p div c)" "length (g ! (p div c)) = c"
    using pl sh i by (auto simp: placed_def has_shape_def list_all_length)
  then show ?thesis using j by (simp add: e placed_row_def)
qed

lemma placed_keys:
  assumes sh: "has_shape g r c" and pl: "placed h g"
  shows "map (\<lambda>a. contents_key (block_contents (h ! a))) (concat g) = map (cell_key c) [0..<r * c]"
proof (rule nth_equalityI)
  show "length (map (\<lambda>a. contents_key (block_contents (h ! a))) (concat g))
          = length (map (cell_key c) [0..<r * c])"
    using has_shape_concat[OF sh] by simp
next
  fix p assume "p < length (map (\<lambda>a. contents_key (block_contents (h ! a))) (concat g))"
  then have p: "p < r * c" using has_shape_concat[OF sh] by simp
  then show "map (\<lambda>a. contents_key (block_contents (h ! a))) (concat g) ! p
               = map (cell_key c) [0..<r * c] ! p"
    using placed_concat[OF sh pl p] has_shape_concat[OF sh]
    by (simp add: contents_key_def block_contents_def cell_key_def)
qed

lemma cell_keys_sorted: "sorted (map (cell_key c) [0..<n])"
proof (cases "c = 0")
  case True
  then show ?thesis by (simp add: cell_key_def sorted_map sorted_wrt_iff_nth_less)
next
  case False
  then show ?thesis
    by (auto simp: sorted_map sorted_wrt_iff_nth_less intro!: cell_key_mono)
qed

lemma placed_distinct:
  assumes sh: "has_shape g r c" and pl: "placed h g"
  shows "distinct (concat g)"
proof -
  have "p = q" if "p < r * c" "q < r * c" "concat g ! p = concat g ! q" for p q
  proof -
    have c: "0 < c" using that(1) by (cases c) auto
    have "cell_key c p = cell_key c q"
      using placed_concat[OF sh pl that(1)] placed_concat[OF sh pl that(2)] that(3)
      by (simp add: cell_key_def)
    then show ?thesis using cell_key_inj[OF c] by simp
  qed
  then show ?thesis
    using has_shape_concat[OF sh] by (auto simp: distinct_conv_nth)
qed

lemma row_contents_saved: "row_contents (saved_row cid b) = block_contents b"
  by (simp add: row_contents_def saved_row_def block_fields_def block_contents_def)

lemma generated_store_tables:
  assumes sh: "has_shape g r c" and pl: "placed h g" and t: "block_rows ss = block_rows st"
  shows "chunk_rows (generated_store st ss ch g h) = chunk_rows st @ [fresh_row st ch]"
    and "block_rows (generated_store st ss ch g h)
           = block_rows st @ map (\<lambda>a. saved_row (Some (length (chunk_rows st))) (h ! a)) (concat g)"
    and "block_contents (heap (generated_store st ss ch g h) ! j) = block_contents (h ! j)"
proof -
  let ?s = "ss\<lparr>heap := h, chunk_rows := chunk_rows st @ [fresh_row st ch]\<rparr>"
  have pre: "\<forall>a\<in>set (concat g). a < length (heap ?s) \<and> blk_db_obj (heap ?s ! a) = None"
  proof
    fix a assume "a \<in> set (concat g)"
    then obtain p where "p < length (concat g)" "a = concat g ! p"
      by (metis in_set_conv_nth)
    then show "a < length (heap ?s) \<and> blk_db_obj (heap ?s ! a) = None"
      using placed_concat[OF sh pl, of p] has_shape_concat[OF sh] by simp
  qed
  note f = fold_save_block_unsaved[OF placed_distinct[OF sh pl] pre,
      of "Some (length (chunk_rows st))"]
  show "chunk_rows (generated_store st ss ch g h) = chunk_rows st @ [fresh_row st ch]"
    by (simp add: generated_store_def)
  show "block_rows (generated_store st ss ch g h)
           = block_rows st @ map (\<lambda>a. saved_row (Some (length (chunk_rows st))) (h ! a)) (concat g)"
    using f t by (simp add: generated_store_def)
  show "block_contents (heap (generated_store st ss ch g h) ! j) = block_contents (h ! j)"
    using f by (simp add: generated_store_def)
qed

lemma filter_new_rows:
  assumes old: "\<forall>i<length xs. \<not> P (xs ! i)" and new: "\<forall>y\<in>set ys. P y"
  shows "filter (\<lambda>i. P ((xs @ ys) ! i)) [0..<length (xs @ ys)] = [length xs..<length xs + length ys]"
proof -
  have split: "[0..<length xs + length ys] = [0..<length xs] @ [length xs..<length xs + length ys]"
    by (rule upt_add_eq_append) simp
  have "\<forall>i\<in>set [0..<length xs]. \<not> P ((xs @ ys) ! i)"
    using old by (simp add: nth_append)
  then have 1: "filter (\<lambda>i. P ((xs @ ys) ! i)) [0..<length xs] = []"
    by (simp only: filter_empty_conv) 
  have "\<forall>i\<in>set [length xs..<length xs + length ys]. P ((xs @ ys) ! i)"
  proof
    fix i assume "i \<in> set [length xs..<length xs + length ys]"
    then have "length xs \<le> i" "i - length xs < length ys" by auto
    then have "(xs @ ys) ! i = ys ! (i - length xs)" "ys ! (i - length xs) \<in> set ys"
      by (simp_all add: nth_append)
    then show "P ((xs @ ys) ! i)" using new by simp
  qed
  then have 2: "filter (\<lambda>i. P ((xs @ ys) ! i)) [length xs..<length xs + length ys]
                   = [length xs..<length xs + length ys]"
    by (simp only: filter_id_conv)
  have "filter (\<lambda>i. P ((xs @ ys) ! i)) [0..<length (xs @ ys)]
          = filter (\<lambda>i. P ((xs @ ys) ! i)) ([0..<length xs] @ [length xs..<length xs + length ys])"
    by (simp only: length_append split[symmetric])
  also have "\<dots> = [length xs..<length xs + length ys]"
    by (simp only: filter_append 1 2 append_Nil)
  finally show ?thesis .
qed

lemma generated_row_blocks:
  assumes sh: "has_shape g r c" and pl: "placed h g" and t: "block_rows ss = block_rows st"
    and fk: "foreign_keys_ok st"
  shows "row_blocks cfg (generated_store st ss ch g h) (fresh_row st ch)
           = row_order cfg [length (block_rows st)..<length (block_rows st) + r * c]"
proof -
  let ?k = "length (chunk_rows st)"
  let ?new = "map (\<lambda>a. saved_row (Some ?k) (h ! a)) (concat g)"
  have old: "\<forall>i<length (block_rows st). \<not> brow_chunk_id (block_rows st ! i) = Some ?k"
    using fk by (auto simp: foreign_keys_ok_def list_all_length split: option.splits)
  have new: "\<forall>y\<in>set ?new. brow_chunk_id y = Some ?k"
    by (auto simp: saved_row_def)
  show ?thesis
    using filter_new_rows[of "block_rows st" "\<lambda>b. brow_chunk_id b = Some ?k" ?new, OF old new]
      has_shape_concat[OF sh]
    by (simp add: row_blocks_def fresh_row_def generated_store_tables(2)[OF sh pl t])
qed

lemma generated_hydrated_contents:
  assumes sh: "has_shape g r c" and pl: "placed h g" and t: "block_rows ss = block_rows st"
    and fk: "foreign_keys_ok st" and perm: "\<forall>xs. mset (row_order cfg xs) = mset xs"
  shows "hydrated_contents cfg (generated_store st ss ch g h) (fresh_row st ch)
           = map (\<lambda>a. block_contents (h ! a)) (concat g)"
proof -
  let ?st1 = "generated_store st ss ch g h"
  let ?k = "length (chunk_rows st)"
  let ?n0 = "length (block_rows st)"
  let ?orig = "map (\<lambda>a. block_contents (h ! a)) (concat g)"
  let ?f = "\<lambda>i. row_contents (block_rows ?st1 ! i)"
  let ?xs = "map ?f (row_order cfg [?n0..<?n0 + r * c])"
  have len: "length (concat g) = r * c" using has_shape_concat[OF sh] .
  have base: "map ?f [?n0..<?n0 + r * c] = ?orig"
  proof (rule nth_equalityI)
    show "length (map ?f [?n0..<?n0 + r * c]) = length ?orig" using len by simp
  next
    fix p assume "p < length (map ?f [?n0..<?n0 + r * c])"
    then have p: "p < r * c" by simp
    then show "map ?f [?n0..<?n0 + r * c] ! p = ?orig ! p"
      using len by (simp add: generated_store_tables(2)[OF sh pl t] nth_append row_contents_saved)
  qed
  have ms: "mset ?xs = mset ?orig"
  proof -
    have "mset ?xs = image_mset ?f (mset (row_order cfg [?n0..<?n0 + r * c]))" by simp
    also have "\<dots> = image_mset ?f (mset [?n0..<?n0 + r * c])" using perm by simp
    also have "\<dots> = mset (map ?f [?n0..<?n0 + r * c])" by simp
    finally show ?thesis by (simp add: base)
  qed
  have keys: "map contents_key ?orig = map (cell_key c) [0..<r * c]"
    using placed_keys[OF sh pl] by (simp add: comp_def)
  have srt: "sorted (map contents_key ?orig)"
    unfolding keys by (rule cell_keys_sorted)
  have inj_orig: "inj_on contents_key (set ?orig)"
  proof (rule inj_onI)
    fix u v assume u: "u \<in> set ?orig" and v: "v \<in> set ?orig"
      and e: "contents_key u = contents_key v"
    obtain p where p: "p < length ?orig" "?orig ! p = u"
      using u unfolding in_set_conv_nth by blast
    obtain q where q: "q < length ?orig" "?orig ! q = v"
      using v unfolding in_set_conv_nth by blast
    have pl': "p < r * c" "q < r * c" using p(1) q(1) len by simp_all
    have c: "0 < c" using pl'(1) by (cases c) auto
    have "map contents_key ?orig ! p = contents_key u" "map contents_key ?orig ! q = contents_key v"
      using p q by (simp_all only: nth_map)
    then have "map (cell_key c) [0..<r * c] ! p = map (cell_key c) [0..<r * c] ! q"
      using e unfolding keys by simp
    then have "cell_key c p = cell_key c q"
      using pl' by simp
    then have "p = q" using cell_key_inj[OF c] by simp
    then show "u = v" using p(2) q(2) by simp
  qed
  have inj: "inj_on contents_key (set ?xs)"
    unfolding mset_eq_setD[OF ms] by (rule inj_orig)
  have "sort_key contents_key ?xs = ?orig"
    using sort_key_inj_key_eq[OF ms inj srt] .
  then show ?thesis
    by (simp add: hydrated_contents_def generated_row_blocks[OF sh pl t fk])
qed

lemma Chunk_derived_name:
  "Chunk cfg x y None = Inr ch \<Longrightarrow> chunk_name ch = ''Chunk('' @ str_int x @ '', '' @ str_int y @ '')''"
  by (auto simp: Chunk_def bindE_def floordiv_def split: if_splits)

text \<open>
  Claim C1: resolving a coordinate with \<open>create = True\<close> twice returns, the second time,
  a chunk with the coordinate, the name and the grid contents (positions, sizes, colours,
  collidable flags, cell by cell) of the first. It holds for every coordinate, on a database
  whose block records refer to persisted chunks only and are complete for the chunk and its
  west and south neighbours where these are persisted, for positive block sizes and a grid
  at least two columns wide or at most one row high, whatever order the block records are
  handed out in. Both calls return: the first generates or hydrates, the second hydrates.
\<close>

theorem load_create_idempotent:
  assumes v: "valid_config cfg" and perm: "\<forall>xs. mset (row_order cfg xs) = mset xs"
    and fk: "foreign_keys_ok st"
    and hy: "hydratable cfg st x y"
    and hw: "hydratable cfg st (x - 1) y" and hs: "hydratable cfg st x (y - 1)"
    and wide: "2 \<le> grid_cols cfg \<or> grid_rows cfg \<le> 1"
  shows "\<exists>ch1 st1 ch2 st2.
           load cfg x y True st = Inr (Some ch1, st1) \<and>
           load cfg x y True st1 = Inr (Some ch2, st2) \<and>
           chunk_x ch1 = x \<and> chunk_y ch1 = y \<and>
           chunk_x ch2 = chunk_x ch1 \<and> chunk_y ch2 = chunk_y ch1 \<and>
           chunk_name ch2 = chunk_name ch1 \<and>
           grid_contents (heap st2) (grid ch2) = grid_contents (heap st1) (grid ch1)"
proof (cases "query_chunk st x y")
  case (Some row)
  have xy: "row_x row = x" "row_y row = y"
    using Some by (auto simp: query_chunk_def find_Some_iff)
  from load_present_hydrates[OF v Some hy, of True] obtain ch1 st1 where
    l1: "load cfg x y True st = Inr (Some ch1, st1)"
    and c1: "chunk_x ch1 = row_x row" "chunk_y ch1 = row_y row"
      "chunk_name ch1 =
         (if row_name row \<noteq> [] then row_name row
          else ''Chunk('' @ str_int (row_x row) @ '', '' @ str_int (row_y row) @ '')'')"
    and s1: "has_shape (grid ch1) (grid_rows cfg) (grid_cols cfg)"
    and h1: "map (\<lambda>a. block_contents (heap st1 ! a)) (concat (grid ch1)) = hydrated_contents cfg st row"
    and t1: "chunk_rows st1 = chunk_rows st" "block_rows st1 = block_rows st"
    by blast
  have q2: "query_chunk st1 x y = Some row"
    using Some query_chunk_tables[OF t1(1)] by simp
  have hy2: "hydratable cfg st1 x y"
    using hy hydratable_tables[OF t1] by simp
  from load_present_hydrates[OF v q2 hy2, of True] obtain ch2 st2 where
    l2: "load cfg x y True st1 = Inr (Some ch2, st2)"
    and c2: "chunk_x ch2 = row_x row" "chunk_y ch2 = row_y row"
      "chunk_name ch2 =
         (if row_name row \<noteq> [] then row_name row
          else ''Chunk('' @ str_int (row_x row) @ '', '' @ str_int (row_y row) @ '')'')"
    and s2: "has_shape (grid ch2) (grid_rows cfg) (grid_cols cfg)"
    and h2: "map (\<lambda>a. block_contents (heap st2 ! a)) (concat (grid ch2)) = hydrated_contents cfg st1 row"
    by blast
  have "map (\<lambda>a. block_contents (heap st2 ! a)) (concat (grid ch2))
          = map (\<lambda>a. block_contents (heap st1 ! a)) (concat (grid ch1))"
    using h1 h2 hydrated_contents_tables[OF t1] by simp
  from grids_eq_from_concat[OF s2 s1 this]
  have "grid_contents (heap st2) (grid ch2) = grid_contents (heap st1) (grid ch1)"
    by (simp add: grid_contents_def)
  then show ?thesis using l1 l2 c1 c2 xy by simp
next
  case None
  from load_fresh_ok[OF v None hw hs wide] obtain ch ss g h where
    ch: "Chunk cfg x y None = Inr ch"
    and ts: "block_rows ss = block_rows st"
    and sh: "has_shape g (grid_rows cfg) (grid_cols cfg)" and pl: "placed h g"
    and l1: "load cfg x y True st =
               Inr (Some (ch\<lparr>grid := g, db_obj := Some (fresh_row st ch), blocks := concat g\<rparr>),
                    generated_store st ss ch g h)"
    by blast
  let ?st1 = "generated_store st ss ch g h"
  let ?row = "fresh_row st ch"
  note c = Chunk_result[OF ch]
  note nm = Chunk_derived_name[OF ch]
  have rowxy: "row_x ?row = x" "row_y ?row = y" "row_name ?row = chunk_name ch"
    using c by (simp_all add: fresh_row_def)
  have q2: "query_chunk ?st1 x y = Some ?row"
    using None rowxy
    by (simp add: query_chunk_def generated_store_tables(1)[OF sh pl ts] find_append_hit)
  have "size (mset (row_order cfg zs)) = size (mset zs)" for zs using perm by simp
  then have plen: "length (row_order cfg zs) = length zs" for zs by simp
  have hy2: "hydratable cfg ?st1 x y"
    using q2 by (simp add: hydratable_def generated_row_blocks[OF sh pl ts fk] plen)
  from load_present_hydrates[OF v q2 hy2, of True] obtain ch2 st2 where
    l2: "load cfg x y True ?st1 = Inr (Some ch2, st2)"
    and c2: "chunk_x ch2 = row_x ?row" "chunk_y ch2 = row_y ?row"
      "chunk_name ch2 =
         (if row_name ?row \<noteq> [] then row_name ?row
          else ''Chunk('' @ str_int (row_x ?row) @ '', '' @ str_int (row_y ?row) @ '')'')"
    and s2: "has_shape (grid ch2) (grid_rows cfg) (grid_cols cfg)"
    and h2: "map (\<lambda>a. block_contents (heap st2 ! a)) (concat (grid ch2)) = hydrated_contents cfg ?st1 ?row"
    by blast
  have "map (\<lambda>a. block_contents (heap st2 ! a)) (concat (grid ch2))
          = map (\<lambda>a. block_contents (heap ?st1 ! a)) (concat g)"
    using h2 generated_hydrated_contents[OF sh pl ts fk perm]
    by (simp add: generated_store_tables(3)[OF sh pl ts])
  from grids_eq_from_concat[OF s2 sh this]
  have gc: "grid_contents (heap st2) (grid ch2) = grid_contents (heap ?st1) g"
    by (simp add: grid_contents_def)
  have "chunk_name ch2 = chunk_name ch"
    using c2(3) rowxy(3) nm by simp
  then show ?thesis using l1 l2 c c2 rowxy gc by simp
qed

text \<open>
  Twice on an empty database (generate, then hydrate) and twice on the database that holds
  the origin chunk (hydrate, then hydrate).
\<close>

theorem load_create_idempotent_witness:
  "(\<exists>ch1 st1 ch2 st2.
      load cfg22 0 0 True empty_store = Inr (Some ch1, st1) \<and>
      load cfg22 0 0 True st1 = Inr (Some ch2, st2) \<and>
      chunk_x ch2 = 0 \<and> chunk_y ch2 = 0 \<and> chunk_name ch2 = chunk_name ch1 \<and>
      grid_contents (heap st2) (grid ch2) = grid_contents (heap st1) (grid ch1)) \<and>
   (\<exists>ch1 st1 ch2 st2.
      load cfg22 0 0 True persisted_store = Inr (Some ch1, st1) \<and>
      load cfg22 0 0 True st1 = Inr (Some ch2, st2) \<and>
      chunk_x ch2 = 0 \<and> chunk_y ch2 = 0 \<and> chunk_name ch2 = chunk_name ch1 \<and>
      grid_contents (heap st2) (grid ch2) = grid_contents (heap st1) (grid ch1))"
proof -
  have perm: "\<forall>xs. mset (row_order cfg22 xs) = mset xs" by (simp add: cfg22_def)
  have w: "2 \<le> grid_cols cfg22 \<or> grid_rows cfg22 \<le> 1" by (simp add: cfg22_facts)
  have fk1: "foreign_keys_ok empty_store" by (simp add: foreign_keys_ok_def empty_store_def)
  have fk2: "foreign_keys_ok persisted_store"
    by (simp add: foreign_keys_ok_def persisted_store_def persisted_row_def)
  have q: "query_chunk persisted_store 0 0 = Some origin_row"
    "query_chunk persisted_store (- 1) 0 = None" "query_chunk persisted_store 0 (- 1) = None"
    by (simp_all add: query_chunk_def persisted_store_def origin_row_def)
  have "[0..<4] = [0, 1, 2, 3]" by (simp add: upt_rec)
  then have "row_blocks cfg22 persisted_store origin_row = [0, 1, 2, 3]"
    by (simp add: row_blocks_def persisted_store_def origin_row_def persisted_row_def cfg22_def)
  then have hy: "hydratable cfg22 persisted_store 0 0" "hydratable cfg22 persisted_store (- 1) 0"
    "hydratable cfg22 persisted_store 0 (- 1)"
    using q by (simp_all add: hydratable_def cfg22_facts)
  have hy': "hydratable cfg22 persisted_store (0 - 1) 0" "hydratable cfg22 persisted_store 0 (0 - 1)"
    using hy by simp_all
  from load_create_idempotent[OF cfg22_facts(1) perm fk1 empty_store_facts(2)
      empty_store_facts(2) empty_store_facts(2) w, of 0 0]
  obtain ch1 st1 ch2 st2 where a:
    "load cfg22 0 0 True empty_store = Inr (Some ch1, st1)"
    "load cfg22 0 0 True st1 = Inr (Some ch2, st2)"
    "chunk_x ch1 = 0" "chunk_y ch1 = 0" "chunk_x ch2 = chunk_x ch1" "chunk_y ch2 = chunk_y ch1"
    "chunk_name ch2 = chunk_name ch1"
    "grid_contents (heap st2) (grid ch2) = grid_contents (heap st1) (grid ch1)"
    by blast
  from load_create_idempotent[OF cfg22_facts(1) perm fk2 hy(1) hy' w]
  obtain ch1' st1' ch2' st2' where b:
    "load cfg22 0 0 True persisted_store = Inr (Some ch1', st1')"
    "load cfg22 0 0 True st1' = Inr (Some ch2', st2')"
    "chunk_x ch1' = 0" "chunk_y ch1' = 0" "chunk_x ch2' = chunk_x ch1'" "chunk_y ch2' = chunk_y ch1'"
    "chunk_name ch2' = chunk_name ch1'"
    "grid_contents (heap st2') (grid ch2') = grid_contents (heap st1') (grid ch1')"
    by blast
  have A: "\<exists>ch1 st1 ch2 st2.
      load cfg22 0 0 True empty_store = Inr (Some ch1, st1) \<and>
      load cfg22 0 0 True st1 = Inr (Some ch2, st2) \<and>
      chunk_x ch2 = 0 \<and> chunk_y ch2 = 0 \<and> chunk_name ch2 = chunk_name ch1 \<and>
      grid_contents (heap st2) (grid ch2) = grid_contents (heap st1) (grid ch1)"
    using a by (intro exI[of _ ch1] exI[of _ st1] exI[of _ ch2] exI[of _ st2]) simp
  have B: "\<exists>ch1 st1 ch2 st2.
      load cfg22 0 0 True persisted_store = Inr (Some ch1, st1) \<and>
      load cfg22 0 0 True st1 = Inr (Some ch2, st2) \<and>
      chunk_x ch2 = 0 \<and> chunk_y ch2 = 0 \<and> chunk_name ch2 = chunk_name ch1 \<and>
      grid_contents (heap st2) (grid ch2) = grid_contents (heap st1) (grid ch1)"
    using b by (intro exI[of _ ch1'] exI[of _ st1'] exI[of _ ch2'] exI[of _ st2']) simp
  show ?thesis using A B by (rule conjI)
qed

end
